theory Spec2Isabelle
  imports Main "HOL-Library.Product_Lexorder"
begin

section \<open>Data model (airport/models.py)\<close>

text \<open>
  Calendar dates are triples (year, month, day); a datetime is a date together with the
  microseconds elapsed since midnight. All datetimes live in the one configured time
  zone, so Python's comparison of datetimes is the lexicographic order on these tuples,
  and a date used as a bound of a DateTimeField lookup is that date at midnight.
\<close>

type_synonym date = "int \<times> int \<times> int"
type_synonym datetime = "date \<times> int"

text \<open>
  Model classes are records. A primary key is \<open>None\<close> until the row is inserted. Fields
  whose Python name is shared by two models carry the model's name as a prefix
  (\<open>Airport.name\<close> is \<open>airport_name\<close>, \<open>Airplane.name\<close> is \<open>airplane_name\<close>, \<open>id\<close> is
  \<open>flight_pk\<close>, \<open>order_pk\<close>, ...). A foreign key that the code only follows
  (\<open>flight.route.source\<close>, \<open>flight.airplane\<close>) is the related record itself; a foreign key that
  the code stores and queries by (\<open>Ticket.flight\<close>, \<open>Ticket.order\<close>) is the key column
  (\<open>flight_id\<close>, \<open>order_id\<close>).
\<close>

record Airport =
  airport_name :: string
  closest_big_city :: string

record Route =
  route_pk :: "nat option"
  source :: Airport
  destination :: Airport
  distance :: int

record Airplane =
  airplane_pk :: "nat option"
  airplane_name :: string
  rows :: int
  seats_in_row :: int
  airplane_type :: nat

record Order =
  order_pk :: "nat option"
  created_at :: datetime
  user :: nat

record Flight =
  flight_pk :: "nat option"
  route :: Route
  airplane :: Airplane
  departure_time :: datetime
  arrival_time :: datetime
  crew :: "int list"

record Ticket =
  ticket_pk :: "nat option"
  row :: int
  seat :: int
  flight_id :: nat
  order_id :: nat

text \<open>
  The persistent store: one list of rows per table, in insertion order. Of the tables of
  AirplaneType and Crew only the keys of their rows are kept: the code of flights, orders
  and tickets uses these rows by key alone.
\<close>

record db =
  airplane_types :: "nat list"
  airplanes :: "Airplane list"
  routes :: "Route list"
  crews :: "int list"
  flights :: "Flight list"
  orders :: "Order list"
  tickets :: "Ticket list"

definition empty_db :: db where
  "empty_db =
     \<lparr>airplane_types = [], airplanes = [], routes = [], crews = [], flights = [],
      orders = [], tickets = []\<rparr>"

text \<open>
  Exceptions. \<open>DjangoValidationError\<close> is \<open>django.core.exceptions.ValidationError\<close> (raised
  by \<open>clean\<close> and \<open>full_clean\<close>), \<open>RestValidationError\<close> is
  \<open>rest_framework.exceptions.ValidationError\<close> (raised by serializers); both carry the
  keys of the error dictionary. \<open>ValueError\<close> is Python's built-in, \<open>DoesNotExist\<close> is
  raised when a related object is followed and its row is missing, \<open>Http404\<close> is what
  \<open>get_object\<close> raises for a key outside the queryset.
\<close>

datatype error =
    DjangoValidationError "string list"
  | RestValidationError "string list"
  | ValueError
  | DoesNotExist
  | Http404

definition is_error :: "error + 'a \<Rightarrow> bool" where
  "is_error r = (case r of Inl _ \<Rightarrow> True | Inr _ \<Rightarrow> False)"

definition bind_err :: "error + 'a \<Rightarrow> ('a \<Rightarrow> error + 'b) \<Rightarrow> error + 'b" where
  "bind_err m k = (case m of Inl e \<Rightarrow> Inl e | Inr x \<Rightarrow> k x)"

subsection \<open>Airplane\<close>

definition capacity :: "Airplane \<Rightarrow> int" where
  "capacity a = rows a * seats_in_row a"

subsection \<open>Ticket.validate_ticket\<close>

text \<open>
  The loop of \<open>validate_ticket\<close> over the two (attribute name, value, airplane attribute)
  triples; \<open>getattr(airplane, airplane_attr_name)\<close> is already looked up in the list. The
  first attribute out of range raises \<open>error_to_raise\<close> with that attribute as key.
\<close>

fun validate_ticket_loop ::
  "(string \<times> int \<times> int) list \<Rightarrow> (string list \<Rightarrow> error) \<Rightarrow> error + unit" where
  "validate_ticket_loop [] error_to_raise = Inr ()"
| "validate_ticket_loop ((ticket_attr_name, ticket_attr_value, count_attrs) # rest) error_to_raise =
     (if \<not> (0 < ticket_attr_value \<and> ticket_attr_value < count_attrs)
      then Inl (error_to_raise [ticket_attr_name])
      else validate_ticket_loop rest error_to_raise)"

definition validate_ticket ::
  "int \<Rightarrow> int \<Rightarrow> Airplane \<Rightarrow> (string list \<Rightarrow> error) \<Rightarrow> error + unit" where
  "validate_ticket r s a error_to_raise =
     validate_ticket_loop
       [(''row'', r, rows a), (''seat'', s, seats_in_row a)] error_to_raise"


subsection \<open>Model.save and primary keys\<close>

text \<open>
  The inherited \<open>Model.save\<close>: an instance without primary key is inserted under a fresh
  key (one above the largest key of the table); an instance with a key replaces the row
  of that key, or is inserted when no row has it.
\<close>

definition fresh_pk :: "nat list \<Rightarrow> nat" where
  "fresh_pk pks = Suc (foldr max pks 0)"

definition Model_save ::
  "('r \<Rightarrow> nat option) \<Rightarrow> (nat option \<Rightarrow> 'r \<Rightarrow> 'r) \<Rightarrow> 'r list \<Rightarrow> 'r \<Rightarrow> 'r \<times> 'r list" where
  "Model_save pk_of set_pk table obj =
     (case pk_of obj of
        None \<Rightarrow>
          (let obj' = set_pk (Some (fresh_pk (List.map_filter pk_of table))) obj
           in (obj', table @ [obj']))
      | Some i \<Rightarrow>
          if list_ex (\<lambda>r. pk_of r = Some i) table
          then (obj, map (\<lambda>r. if pk_of r = Some i then obj else r) table)
          else (obj, table @ [obj]))"

subsection \<open>Flight\<close>

definition get_flight :: "db \<Rightarrow> nat \<Rightarrow> Flight option" where
  "get_flight d i = find (\<lambda>f. flight_pk f = Some i) (flights d)"

text \<open>
  \<open>Flight.tickets_available\<close>: \<open>self.tickets.count()\<close> counts the ticket rows whose
  \<open>flight_id\<close> is this flight's key; the reverse relation of an unsaved instance raises.
\<close>

definition tickets_count :: "db \<Rightarrow> nat \<Rightarrow> nat" where
  "tickets_count d i = length (filter (\<lambda>t. flight_id t = i) (tickets d))"

definition tickets_available :: "db \<Rightarrow> Flight \<Rightarrow> error + int" where
  "tickets_available d f =
     (case flight_pk f of
        None \<Rightarrow> Inl ValueError
      | Some i \<Rightarrow> Inr (capacity (airplane f) - int (tickets_count d i)))"

definition Flight_clean :: "Flight \<Rightarrow> error + unit" where
  "Flight_clean f =
     (if departure_time f \<ge> arrival_time f
      then Inl (DjangoValidationError [''__all__''])
      else Inr ())"

text \<open>
  The field checks of \<open>full_clean\<close>: the foreign keys \<open>route\<close> and \<open>airplane\<close> must not
  be null (the related object has a key) and a row with that key must exist. The
  many-to-many field \<open>crew\<close> is not among the fields that \<open>clean_fields\<close> visits.
\<close>

definition Flight_clean_fields :: "db \<Rightarrow> Flight \<Rightarrow> string list" where
  "Flight_clean_fields d f =
     (case route_pk (route f) of
        None \<Rightarrow> [''route'']
      | Some i \<Rightarrow> if list_ex (\<lambda>r. route_pk r = Some i) (routes d) then [] else [''route'']) @
     (case airplane_pk (airplane f) of
        None \<Rightarrow> [''airplane'']
      | Some i \<Rightarrow>
          if list_ex (\<lambda>a. airplane_pk a = Some i) (airplanes d) then [] else [''airplane''])"

text \<open>
  \<open>full_clean\<close> runs the field checks and \<open>clean\<close>, collects the errors of both and
  raises when there is one. (Flight has no uniqueness constraint.)
\<close>

definition Flight_full_clean :: "db \<Rightarrow> Flight \<Rightarrow> error + unit" where
  "Flight_full_clean d f =
     (let errors =
        Flight_clean_fields d f @
        (case Flight_clean f of Inl _ \<Rightarrow> [''__all__''] | Inr _ \<Rightarrow> [])
      in if errors = [] then Inr () else Inl (DjangoValidationError errors))"

definition Flight_save :: "db \<Rightarrow> Flight \<Rightarrow> (error + Flight) \<times> db" where
  "Flight_save d f =
     (case Flight_full_clean d f of
        Inl e \<Rightarrow> (Inl e, d)
      | Inr _ \<Rightarrow>
          (case Model_save flight_pk (\<lambda>p r. r\<lparr>flight_pk := p\<rparr>) (flights d) f of
             (f', table) \<Rightarrow> (Inr f', d\<lparr>flights := table\<rparr>)))"

subsection \<open>Ticket\<close>

definition Ticket_clean_fields :: "db \<Rightarrow> Ticket \<Rightarrow> error + unit" where
  "Ticket_clean_fields d t =
     (let errors =
        (if get_flight d (flight_id t) = None then [''flight''] else []) @
        (if list_ex (\<lambda>x. order_pk x = Some (order_id t)) (orders d) then [] else [''order''])
      in if errors = [] then Inr () else Inl (DjangoValidationError errors))"

definition Ticket_clean :: "db \<Rightarrow> Ticket \<Rightarrow> error + unit" where
  "Ticket_clean d t =
     (case get_flight d (flight_id t) of
        None \<Rightarrow> Inl DoesNotExist
      | Some f \<Rightarrow> validate_ticket (row t) (seat t) (airplane f) DjangoValidationError)"

text \<open>
  The check that \<open>unique_together = ["row", "seat", "flight"]\<close> adds to \<open>full_clean\<close>: some
  other row has the same three values (a saved instance does not count itself).
\<close>

definition Ticket_validate_unique :: "db \<Rightarrow> Ticket \<Rightarrow> error + unit" where
  "Ticket_validate_unique d t =
     (if list_ex (\<lambda>u. row u = row t \<and> seat u = seat t \<and> flight_id u = flight_id t \<and>
                       (ticket_pk t = None \<or> ticket_pk u \<noteq> ticket_pk t)) (tickets d)
      then Inl (DjangoValidationError [''__all__''])
      else Inr ())"

text \<open>
  \<open>full_clean\<close> raises exactly when one of its steps does (a uniqueness check is skipped
  for fields that already failed); the model reports the error of the first failing step.
\<close>

definition Ticket_full_clean :: "db \<Rightarrow> Ticket \<Rightarrow> error + unit" where
  "Ticket_full_clean d t =
     bind_err (Ticket_clean_fields d t) (\<lambda>_.
     bind_err (Ticket_clean d t) (\<lambda>_.
     Ticket_validate_unique d t))"

definition Ticket_save :: "db \<Rightarrow> Ticket \<Rightarrow> (error + Ticket) \<times> db" where
  "Ticket_save d t =
     (case Ticket_full_clean d t of
        Inl e \<Rightarrow> (Inl e, d)
      | Inr _ \<Rightarrow>
          (case Model_save ticket_pk (\<lambda>p r. r\<lparr>ticket_pk := p\<rparr>) (tickets d) t of
             (t', table) \<Rightarrow> (Inr t', d\<lparr>tickets := table\<rparr>)))"

text \<open>
  \<open>Ticket.objects.create(order=order, row=.., seat=.., flight=..)\<close>: the related objects
  give the key columns (an unsaved related object is refused), then \<open>save\<close>.
\<close>

definition Ticket_objects_create ::
  "db \<Rightarrow> Order \<Rightarrow> int \<times> int \<times> Flight \<Rightarrow> (error + Ticket) \<times> db" where
  "Ticket_objects_create d ord ticket_data =
     (case ticket_data of (r, s, f) \<Rightarrow>
        (case (order_pk ord, flight_pk f) of
           (Some oid, Some fid) \<Rightarrow>
             Ticket_save d
               \<lparr>ticket_pk = None, row = r, seat = s, flight_id = fid, order_id = oid\<rparr>
         | _ \<Rightarrow> (Inl ValueError, d)))"

subsection \<open>Order\<close>

definition Order_objects_create :: "db \<Rightarrow> datetime \<Rightarrow> nat \<Rightarrow> Order \<times> db" where
  "Order_objects_create d now u =
     (case Model_save order_pk (\<lambda>p r. r\<lparr>order_pk := p\<rparr>) (orders d)
             \<lparr>order_pk = None, created_at = now, user = u\<rparr> of
        (ord, table) \<Rightarrow> (ord, d\<lparr>orders := table\<rparr>))"

text \<open>Deleting an order deletes its tickets (\<open>on_delete=CASCADE\<close>).\<close>

definition Order_delete :: "db \<Rightarrow> Order \<Rightarrow> db" where
  "Order_delete d ord =
     d\<lparr>orders := filter (\<lambda>x. order_pk x \<noteq> order_pk ord) (orders d),
       tickets := filter (\<lambda>t. Some (order_id t) \<noteq> order_pk ord) (tickets d)\<rparr>"

subsection \<open>Airplane\<close>

text \<open>\<open>Airplane.objects.create\<close>: Airplane keeps the inherited \<open>save\<close>, nothing is validated.\<close>

definition Airplane_objects_create :: "db \<Rightarrow> Airplane \<Rightarrow> Airplane \<times> db" where
  "Airplane_objects_create d a =
     (case Model_save airplane_pk (\<lambda>p r. r\<lparr>airplane_pk := p\<rparr>) (airplanes d)
             (a\<lparr>airplane_pk := None\<rparr>) of
        (a', table) \<Rightarrow> (a', d\<lparr>airplanes := table\<rparr>))"

subsection \<open>Reference data\<close>

text \<open>
  Airplane types, routes and crew members are reference data. The endpoints that create
  them validate a payload and then insert one row; here a row is inserted whatever its
  content, under a fresh key, so the stores reached below include every store that the
  real endpoints reach.
\<close>

definition insert_airplane_type :: "db \<Rightarrow> db" where
  "insert_airplane_type d = d\<lparr>airplane_types := airplane_types d @ [fresh_pk (airplane_types d)]\<rparr>"

definition insert_route :: "db \<Rightarrow> Route \<Rightarrow> db" where
  "insert_route d r =
     (case Model_save route_pk (\<lambda>p x. x\<lparr>route_pk := p\<rparr>) (routes d) (r\<lparr>route_pk := None\<rparr>) of
        (r', table) \<Rightarrow> d\<lparr>routes := table\<rparr>)"

definition insert_crew :: "db \<Rightarrow> db" where
  "insert_crew d = d\<lparr>crews := crews d @ [int (fresh_pk (map nat (crews d)))]\<rparr>"

section \<open>Serializers (airport/serializers.py)\<close>

subsection \<open>Fields of a ModelSerializer\<close>

text \<open>
  A payload is the parsed request body: one optional value per writable field, \<open>None\<close>
  for a field that is missing or null (all the fields below are required and not
  nullable), a value of the field's type otherwise. Each field is validated on its own;
  the keys of the failing fields make the error, and the serializer's \<open>validate\<close> runs
  only when no field failed.
\<close>

definition field_errors :: "string \<Rightarrow> 'a option \<Rightarrow> string list" where
  "field_errors key validated = (case validated of None \<Rightarrow> [key] | Some _ \<Rightarrow> [])"

text \<open>
  The field of a \<open>CharField(max_length=...)\<close> column: surrounding white space is
  trimmed, then the value must not be blank, not longer than \<open>max_length\<close> and free of
  null characters. \<open>strip\<close> is Python's \<open>str.strip()\<close>; strings are ASCII.
\<close>

definition is_space :: "char \<Rightarrow> bool" where
  "is_space c = (let n = (of_char c :: nat) in (9 \<le> n \<and> n \<le> 13) \<or> (28 \<le> n \<and> n \<le> 32))"

definition strip :: "string \<Rightarrow> string" where
  "strip s = dropWhile is_space (rev (dropWhile is_space (rev s)))"

definition CharField :: "nat \<Rightarrow> string \<Rightarrow> string option" where
  "CharField max_length data =
     (let v = strip data
      in if v = [] \<or> length v > max_length \<or> CHR 0x00 \<in> set v then None else Some v)"

text \<open>
  The field of an \<open>IntegerField\<close> column: Django gives the column the validators of the
  database's integer range and the serializer field takes them over as \<open>min_value\<close> and
  \<open>max_value\<close>. The backend is chosen in the project's settings, outside airport/; the
  range here is the 32-bit one of Django's default backend operations, the narrowest that
  a backend declares (SQLite's is 64 bits wide).
\<close>

definition integer_min :: int where
  "integer_min = - 2147483648"

definition integer_max :: int where
  "integer_max = 2147483647"

definition IntegerField :: "int \<Rightarrow> int option" where
  "IntegerField data = (if integer_min \<le> data \<and> data \<le> integer_max then Some data else None)"

subsection \<open>AirplaneSerializer\<close>

record AirplanePayload =
  ap_name :: "string option"
  ap_rows :: "int option"
  ap_seats_in_row :: "int option"
  ap_airplane_type :: "nat option"

text \<open>
  \<open>AirplaneSerializer\<close> has the fields \<open>name\<close>, \<open>rows\<close>, \<open>seats_in_row\<close> and
  \<open>airplane_type\<close> (\<open>id\<close> is read-only) and declares no \<open>validate\<close>. Neither the model
  nor the serializer bounds \<open>rows\<close> or \<open>seats_in_row\<close> from below by 1.
\<close>

definition AirplaneSerializer_run_validation :: "db \<Rightarrow> AirplanePayload \<Rightarrow> error + Airplane" where
  "AirplaneSerializer_run_validation d payload =
     (let name_v = Option.bind (ap_name payload) (CharField 255);
          rows_v = Option.bind (ap_rows payload) IntegerField;
          seats_v = Option.bind (ap_seats_in_row payload) IntegerField;
          type_v = Option.bind (ap_airplane_type payload)
                     (\<lambda>k. if k \<in> set (airplane_types d) then Some k else None)
      in case (name_v, rows_v, seats_v, type_v) of
           (Some n, Some r, Some s, Some t) \<Rightarrow>
             Inr \<lparr>airplane_pk = None, airplane_name = n, rows = r, seats_in_row = s,
                  airplane_type = t\<rparr>
         | _ \<Rightarrow>
             Inl (RestValidationError
                    (field_errors ''name'' name_v @ field_errors ''rows'' rows_v @
                     field_errors ''seats_in_row'' seats_v @
                     field_errors ''airplane_type'' type_v)))"

subsection \<open>FlightSerializer\<close>

record FlightPayload =
  fp_route :: "nat option"
  fp_airplane :: "nat option"
  fp_departure_time :: "datetime option"
  fp_arrival_time :: "datetime option"
  fp_crew :: "int list option"

text \<open>
  The fields of \<open>FlightSerializer\<close>: \<open>route\<close> and \<open>airplane\<close> are keys of existing rows,
  and \<open>crew\<close> (a \<open>ManyToManyField\<close> without \<open>blank=True\<close>) is a list of keys of existing
  crew members that must not be empty.
\<close>

definition FlightSerializer_to_internal_value :: "db \<Rightarrow> FlightPayload \<Rightarrow> error + Flight" where
  "FlightSerializer_to_internal_value d payload =
     (let route_v = Option.bind (fp_route payload)
                      (\<lambda>k. find (\<lambda>r. route_pk r = Some k) (routes d));
          airplane_v = Option.bind (fp_airplane payload)
                         (\<lambda>k. find (\<lambda>a. airplane_pk a = Some k) (airplanes d));
          crew_v = Option.bind (fp_crew payload)
                     (\<lambda>ks. if ks = [] \<or> \<not> list_all (\<lambda>k. k \<in> set (crews d)) ks
                           then None else Some ks)
      in case (route_v, airplane_v, fp_departure_time payload, fp_arrival_time payload, crew_v) of
           (Some r, Some a, Some dep, Some arr, Some ks) \<Rightarrow>
             Inr \<lparr>flight_pk = None, route = r, airplane = a, departure_time = dep,
                  arrival_time = arr, crew = ks\<rparr>
         | _ \<Rightarrow>
             Inl (RestValidationError
                    (field_errors ''route'' route_v @ field_errors ''airplane'' airplane_v @
                     field_errors ''departure_time'' (fp_departure_time payload) @
                     field_errors ''arrival_time'' (fp_arrival_time payload) @
                     field_errors ''crew'' crew_v)))"

text \<open>\<open>FlightSerializer.validate\<close>.\<close>

definition FlightSerializer_validate :: "Flight \<Rightarrow> error + Flight" where
  "FlightSerializer_validate attrs =
     (if departure_time attrs \<ge> arrival_time attrs
      then Inl (RestValidationError [''non_field_errors''])
      else Inr attrs)"

definition FlightSerializer_run_validation :: "db \<Rightarrow> FlightPayload \<Rightarrow> error + Flight" where
  "FlightSerializer_run_validation d payload =
     bind_err (FlightSerializer_to_internal_value d payload) FlightSerializer_validate"

subsection \<open>TicketSerializer\<close>

text \<open>
  \<open>TicketSerializer.validate\<close>; \<open>attrs["flight"]\<close> is the Flight object that the field
  has already looked up.
\<close>

definition TicketSerializer_validate :: "int \<times> int \<times> Flight \<Rightarrow> error + int \<times> int \<times> Flight" where
  "TicketSerializer_validate attrs =
     (case attrs of (r, s, f) \<Rightarrow>
        bind_err (validate_ticket r s (airplane f) RestValidationError) (\<lambda>_. Inr attrs))"

text \<open>
  Validation of one ticket of a payload \<open>{row, seat, flight}\<close>: the flight key is looked
  up, then the validator that a ModelSerializer derives from \<open>unique_together\<close> compares
  with the stored tickets, then \<open>validate\<close> runs.
\<close>

definition TicketSerializer_run_validation ::
  "db \<Rightarrow> int \<times> int \<times> nat \<Rightarrow> error + int \<times> int \<times> Flight" where
  "TicketSerializer_run_validation d data =
     (case data of (r, s, fid) \<Rightarrow>
        (case get_flight d fid of
           None \<Rightarrow> Inl (RestValidationError [''flight''])
         | Some f \<Rightarrow>
             if list_ex (\<lambda>u. row u = r \<and> seat u = s \<and> flight_id u = fid) (tickets d)
             then Inl (RestValidationError [''non_field_errors''])
             else TicketSerializer_validate (r, s, f)))"

subsection \<open>OrderSerializer\<close>

text \<open>
  \<open>tickets = TicketSerializer(many=True, read_only=False, allow_empty=False)\<close>: an empty
  list is an error; otherwise every item is validated and one failing item fails the list.
\<close>

definition OrderSerializer_run_validation ::
  "db \<Rightarrow> (int \<times> int \<times> nat) list \<Rightarrow> error + (int \<times> int \<times> Flight) list" where
  "OrderSerializer_run_validation d tickets_payload =
     (if tickets_payload = [] then Inl (RestValidationError [''tickets''])
      else
        (let results = map (TicketSerializer_run_validation d) tickets_payload
         in if list_ex is_error results then Inl (RestValidationError [''tickets''])
            else Inr (List.map_filter
                        (\<lambda>res. case res of Inl _ \<Rightarrow> None | Inr v \<Rightarrow> Some v) results)))"

text \<open>
  \<open>transaction.atomic()\<close>: when the block raises, the store is what it was on entry.
\<close>

definition transaction_atomic ::
  "(db \<Rightarrow> (error + 'a) \<times> db) \<Rightarrow> db \<Rightarrow> (error + 'a) \<times> db" where
  "transaction_atomic body d =
     (case body d of
        (Inl e, _) \<Rightarrow> (Inl e, d)
      | (Inr x, d') \<Rightarrow> (Inr x, d'))"

text \<open>The loop \<open>for ticket_data in tickets_data: Ticket.objects.create(...)\<close>.\<close>

fun create_tickets :: "db \<Rightarrow> Order \<Rightarrow> (int \<times> int \<times> Flight) list \<Rightarrow> (error + unit) \<times> db" where
  "create_tickets d ord [] = (Inr (), d)"
| "create_tickets d ord (ticket_data # rest) =
     (case Ticket_objects_create d ord ticket_data of
        (Inl e, d') \<Rightarrow> (Inl e, d')
      | (Inr _, d') \<Rightarrow> create_tickets d' ord rest)"

definition OrderSerializer_create_body ::
  "datetime \<Rightarrow> nat \<Rightarrow> (int \<times> int \<times> Flight) list \<Rightarrow> db \<Rightarrow> (error + Order) \<times> db" where
  "OrderSerializer_create_body now u tickets_data d =
     (case Order_objects_create d now u of
        (ord, d1) \<Rightarrow>
          (case create_tickets d1 ord tickets_data of
             (Inl e, d2) \<Rightarrow> (Inl e, d2)
           | (Inr _, d2) \<Rightarrow> (Inr ord, d2)))"

definition OrderSerializer_create ::
  "db \<Rightarrow> datetime \<Rightarrow> nat \<Rightarrow> (int \<times> int \<times> Flight) list \<Rightarrow> (error + Order) \<times> db" where
  "OrderSerializer_create d now u tickets_data =
     transaction_atomic (OrderSerializer_create_body now u tickets_data) d"

section \<open>Views (airport/views.py)\<close>

subsection \<open>OrderViewSet\<close>

text \<open>
  \<open>create\<close> of CreateModelMixin: validate the payload, then \<open>perform_create\<close> saves with
  \<open>user=self.request.user\<close>. This is the operation \<open>create_order(user, ticket_specs)\<close>.
\<close>

definition create_order ::
  "db \<Rightarrow> datetime \<Rightarrow> nat \<Rightarrow> (int \<times> int \<times> nat) list \<Rightarrow> (error + Order) \<times> db" where
  "create_order d now u ticket_specs =
     (case OrderSerializer_run_validation d ticket_specs of
        Inl e \<Rightarrow> (Inl e, d)
      | Inr validated_data \<Rightarrow> OrderSerializer_create d now u validated_data)"

definition OrderViewSet_get_queryset :: "db \<Rightarrow> nat \<Rightarrow> Order list" where
  "OrderViewSet_get_queryset d u = filter (\<lambda>x. user x = u) (orders d)"

definition get_object :: "Order list \<Rightarrow> nat \<Rightarrow> error + Order" where
  "get_object queryset pk =
     (case find (\<lambda>x. order_pk x = Some pk) queryset of
        None \<Rightarrow> Inl Http404
      | Some x \<Rightarrow> Inr x)"

definition list_orders :: "db \<Rightarrow> nat \<Rightarrow> Order list" where
  "list_orders d u = OrderViewSet_get_queryset d u"

definition retrieve_order :: "db \<Rightarrow> nat \<Rightarrow> nat \<Rightarrow> error + Order" where
  "retrieve_order d u pk = get_object (OrderViewSet_get_queryset d u) pk"

definition destroy_order :: "db \<Rightarrow> nat \<Rightarrow> nat \<Rightarrow> (error + unit) \<times> db" where
  "destroy_order d u pk =
     (case get_object (OrderViewSet_get_queryset d u) pk of
        Inl e \<Rightarrow> (Inl e, d)
      | Inr ord \<Rightarrow> (Inr (), Order_delete d ord))"

subsection \<open>FlightViewSet and AirplaneViewSet: create\<close>

text \<open>
  \<open>create\<close> of CreateModelMixin with a ModelSerializer: the payload is validated, the
  instance is saved, and for a flight the crew is set afterwards (a key sent twice is
  linked once).
\<close>

definition create_flight :: "db \<Rightarrow> FlightPayload \<Rightarrow> (error + Flight) \<times> db" where
  "create_flight d payload =
     (case FlightSerializer_run_validation d payload of
        Inl e \<Rightarrow> (Inl e, d)
      | Inr validated_data \<Rightarrow>
          Flight_save d (validated_data\<lparr>crew := remdups (crew validated_data)\<rparr>))"

definition create_airplane :: "db \<Rightarrow> AirplanePayload \<Rightarrow> (error + Airplane) \<times> db" where
  "create_airplane d payload =
     (case AirplaneSerializer_run_validation d payload of
        Inl e \<Rightarrow> (Inl e, d)
      | Inr validated_data \<Rightarrow>
          (case Airplane_objects_create d validated_data of (a, d') \<Rightarrow> (Inr a, d')))"

subsection \<open>Requests\<close>

text \<open>
  The writing requests of the REST interface (airport/urls.py registers no update
  route for these resources) and the stores they lead to from the empty one.
\<close>

datatype request =
    CreateAirplaneType
  | CreateRoute Route
  | CreateCrew
  | CreateAirplane AirplanePayload
  | CreateFlight FlightPayload
  | CreateOrder datetime nat "(int \<times> int \<times> nat) list"
  | DestroyOrder nat nat

fun handle :: "db \<Rightarrow> request \<Rightarrow> db" where
  "handle d CreateAirplaneType = insert_airplane_type d"
| "handle d (CreateRoute r) = insert_route d r"
| "handle d CreateCrew = insert_crew d"
| "handle d (CreateAirplane payload) = snd (create_airplane d payload)"
| "handle d (CreateFlight payload) = snd (create_flight d payload)"
| "handle d (CreateOrder now u ticket_specs) = snd (create_order d now u ticket_specs)"
| "handle d (DestroyOrder u pk) = snd (destroy_order d u pk)"

definition run :: "request list \<Rightarrow> db" where
  "run requests = foldl handle empty_db requests"

subsection \<open>Python's string functions used by FlightViewSet\<close>

text \<open>
  Strings are ASCII. \<open>int(s)\<close> strips white space, takes an optional sign and then decimal
  digits, where single underscores may separate digits; anything else is a ValueError.
  (The interpreter's limit of 4300 digits is not modelled.)
\<close>

definition is_digit :: "char \<Rightarrow> bool" where
  "is_digit c = (let n = (of_char c :: nat) in 48 \<le> n \<and> n \<le> 57)"

definition digit_val :: "char \<Rightarrow> int" where
  "digit_val c = int (of_char c) - 48"

fun digits_ok :: "string \<Rightarrow> bool" where
  "digits_ok [] = False"
| "digits_ok [c] = is_digit c"
| "digits_ok (c # e # cs) =
     (if is_digit c then (if e = CHR ''_'' then digits_ok cs else digits_ok (e # cs))
      else False)"

definition digits_value :: "string \<Rightarrow> int" where
  "digits_value s = foldl (\<lambda>acc c. acc * 10 + digit_val c) 0 (filter is_digit s)"

definition py_int :: "string \<Rightarrow> error + int" where
  "py_int s =
     (case strip s of
        [] \<Rightarrow> Inl ValueError
      | c # cs \<Rightarrow>
          (let negative = (c = CHR ''-'');
               body = (if c = CHR ''-'' \<or> c = CHR ''+'' then cs else c # cs)
           in if digits_ok body
              then Inr (if negative then - digits_value body else digits_value body)
              else Inl ValueError))"

text \<open>\<open>qs.split(",")\<close>: the pieces between commas; never an empty list.\<close>

fun split_comma :: "string \<Rightarrow> string list" where
  "split_comma [] = [[]]"
| "split_comma (c # cs) =
     (if c = CHR '','' then [] # split_comma cs
      else (case split_comma cs of
              [] \<Rightarrow> [[c]]
            | piece # pieces \<Rightarrow> (c # piece) # pieces))"

text \<open>
  \<open>datetime.strptime(s, "%Y-%m-%d").date()\<close>. The format is matched as the regular
  expression \<open>\d\d\d\d-(1[0-2]|0[1-9]|[1-9])-(3[01]|[12]\d|0[1-9]|[1-9]| [1-9])\<close> at the
  start of the string; text left over, a year 0 and a day that the month does not have
  are ValueErrors.
\<close>

definition match_Y :: "string \<Rightarrow> (int \<times> string) option" where
  "match_Y s =
     (case s of
        a # b # c # e # rest \<Rightarrow>
          if is_digit a \<and> is_digit b \<and> is_digit c \<and> is_digit e
          then Some (digits_value [a, b, c, e], rest) else None
      | _ \<Rightarrow> None)"

definition match_m :: "string \<Rightarrow> (int \<times> string) option" where
  "match_m s =
     (case s of
        [] \<Rightarrow> None
      | a # t \<Rightarrow>
          (case t of
             b # rest \<Rightarrow>
               if a = CHR ''1'' \<and> b \<in> set ''012'' then Some (digits_value [a, b], rest)
               else if a = CHR ''0'' \<and> b \<in> set ''123456789'' then Some (digits_value [a, b], rest)
               else if a \<in> set ''123456789'' then Some (digits_value [a], t)
               else None
           | [] \<Rightarrow> if a \<in> set ''123456789'' then Some (digits_value [a], t) else None))"

definition match_d :: "string \<Rightarrow> (int \<times> string) option" where
  "match_d s =
     (case s of
        [] \<Rightarrow> None
      | a # t \<Rightarrow>
          (case t of
             b # rest \<Rightarrow>
               if a = CHR ''3'' \<and> b \<in> set ''01'' then Some (digits_value [a, b], rest)
               else if a \<in> set ''12'' \<and> is_digit b then Some (digits_value [a, b], rest)
               else if a = CHR ''0'' \<and> b \<in> set ''123456789'' then Some (digits_value [a, b], rest)
               else if a \<in> set ''123456789'' then Some (digits_value [a], t)
               else if a = CHR '' '' \<and> b \<in> set ''123456789'' then Some (digits_value [b], rest)
               else None
           | [] \<Rightarrow> if a \<in> set ''123456789'' then Some (digits_value [a], t) else None))"

definition match_dash :: "string \<Rightarrow> string option" where
  "match_dash s = (case s of c # rest \<Rightarrow> if c = CHR ''-'' then Some rest else None | [] \<Rightarrow> None)"

definition is_leap :: "int \<Rightarrow> bool" where
  "is_leap y = (y mod 4 = 0 \<and> (y mod 100 \<noteq> 0 \<or> y mod 400 = 0))"

definition days_in_month :: "int \<Rightarrow> int \<Rightarrow> int" where
  "days_in_month y m =
     (if m = 2 then (if is_leap y then 29 else 28)
      else if m = 4 \<or> m = 6 \<or> m = 9 \<or> m = 11 then 30 else 31)"

definition strptime_date :: "string \<Rightarrow> error + date" where
  "strptime_date s =
     (case match_Y s of None \<Rightarrow> Inl ValueError | Some (y, s1) \<Rightarrow>
      (case match_dash s1 of None \<Rightarrow> Inl ValueError | Some s2 \<Rightarrow>
      (case match_m s2 of None \<Rightarrow> Inl ValueError | Some (m, s3) \<Rightarrow>
      (case match_dash s3 of None \<Rightarrow> Inl ValueError | Some s4 \<Rightarrow>
      (case match_d s4 of None \<Rightarrow> Inl ValueError | Some (dd, s5) \<Rightarrow>
         if s5 \<noteq> [] then Inl ValueError
         else if y < 1 \<or> dd > days_in_month y m then Inl ValueError
         else Inr (y, m, dd))))))"

text \<open>
  The lookup \<open>__icontains\<close>: the value occurs in the field, letter case ignored.
\<close>

definition lower_char :: "char \<Rightarrow> char" where
  "lower_char c =
     (let n = (of_char c :: nat) in if 65 \<le> n \<and> n \<le> 90 then char_of (n + 32) else c)"

fun contains :: "string \<Rightarrow> string \<Rightarrow> bool" where
  "contains [] v = (v = [])"
| "contains (c # cs) v = (take (length v) (c # cs) = v \<or> contains cs v)"

definition icontains :: "string \<Rightarrow> string \<Rightarrow> bool" where
  "icontains field_value v = contains (map lower_char field_value) (map lower_char v)"

subsection \<open>FlightViewSet\<close>

fun ints_of :: "string list \<Rightarrow> error + int list" where
  "ints_of [] = Inr []"
| "ints_of (str_id # rest) =
     bind_err (py_int str_id) (\<lambda>i. bind_err (ints_of rest) (\<lambda>is. Inr (i # is)))"

definition params_to_ints :: "string \<Rightarrow> error + int list" where
  "params_to_ints qs = ints_of (split_comma qs)"

text \<open>
  \<open>queryset.filter(crew__id__in=crew_ids)\<close> joins the flights with their crew rows: a
  flight comes once for each of its crew members in the list.
\<close>

definition filter_crew_id_in :: "int list \<Rightarrow> Flight list \<Rightarrow> Flight list" where
  "filter_crew_id_in crew_ids queryset =
     concat (map (\<lambda>f. map (\<lambda>_. f) (filter (\<lambda>c. c \<in> set crew_ids) (crew f))) queryset)"

text \<open>\<open>if param: queryset = ...\<close>: a parameter that is absent or empty is skipped.\<close>

definition when_param ::
  "string option \<Rightarrow> (string \<Rightarrow> 'q \<Rightarrow> error + 'q) \<Rightarrow> 'q \<Rightarrow> error + 'q" where
  "when_param param k queryset =
     (case param of
        None \<Rightarrow> Inr queryset
      | Some v \<Rightarrow> if v = [] then Inr queryset else k v queryset)"

text \<open>
  \<open>FlightViewSet.get_queryset\<close>; \<open>query_params\<close> maps a parameter name to its value. The
  branches on \<open>self.action\<close> only choose what is prefetched.
\<close>

definition get_queryset :: "(string \<rightharpoonup> string) \<Rightarrow> Flight list \<Rightarrow> error + Flight list" where
  "get_queryset query_params queryset0 =
     bind_err (when_param (query_params ''source_airport'')
       (\<lambda>v q. Inr (filter (\<lambda>f. icontains (airport_name (source (route f))) v) q)) queryset0)
     (\<lambda>queryset.
     bind_err (when_param (query_params ''destination_airport'')
       (\<lambda>v q. Inr (filter (\<lambda>f. icontains (airport_name (destination (route f))) v) q)) queryset)
     (\<lambda>queryset.
     bind_err (when_param (query_params ''source_city'')
       (\<lambda>v q. Inr (filter (\<lambda>f. icontains (closest_big_city (source (route f))) v) q)) queryset)
     (\<lambda>queryset.
     bind_err (when_param (query_params ''destination_city'')
       (\<lambda>v q. Inr (filter (\<lambda>f. icontains (closest_big_city (destination (route f))) v) q)) queryset)
     (\<lambda>queryset.
     bind_err (when_param (query_params ''airplane'')
       (\<lambda>v q. Inr (filter (\<lambda>f. icontains (airplane_name (airplane f)) v) q)) queryset)
     (\<lambda>queryset.
     bind_err (when_param (query_params ''crew'')
       (\<lambda>v q. bind_err (params_to_ints v) (\<lambda>crew_ids. Inr (filter_crew_id_in crew_ids q))) queryset)
     (\<lambda>queryset.
     bind_err (when_param (query_params ''date_departure'')
       (\<lambda>v q. bind_err (strptime_date v)
          (\<lambda>date_departure. Inr (filter (\<lambda>f. departure_time f \<ge> (date_departure, 0)) q))) queryset)
     (\<lambda>queryset.
     bind_err (when_param (query_params ''date_arrival'')
       (\<lambda>v q. bind_err (strptime_date v)
          (\<lambda>date_arrival. Inr (filter (\<lambda>f. arrival_time f \<ge> (date_arrival, 0)) q))) queryset)
     (\<lambda>queryset.
     Inr (sort_key departure_time (remdups queryset))))))))))"




section \<open>Properties of a store\<close>

text \<open>The three columns of \<open>unique_together\<close> of a ticket, and their uniqueness in a store.\<close>

definition seat_key :: "Ticket \<Rightarrow> int \<times> int \<times> nat" where
  "seat_key t = (row t, seat t, flight_id t)"

definition seats_unique :: "db \<Rightarrow> bool" where
  "seats_unique d = distinct (map seat_key (tickets d))"

text \<open>Every order has a ticket, and every ticket has its order.\<close>

definition orders_have_tickets :: "db \<Rightarrow> bool" where
  "orders_have_tickets d =
     list_all (\<lambda>x. list_ex (\<lambda>t. Some (order_id t) = order_pk x) (tickets d)) (orders d)"

definition tickets_have_orders :: "db \<Rightarrow> bool" where
  "tickets_have_orders d =
     list_all (\<lambda>t. list_ex (\<lambda>x. order_pk x = Some (order_id t)) (orders d)) (tickets d)"

definition flights_well_timed :: "db \<Rightarrow> bool" where
  "flights_well_timed d = list_all (\<lambda>f. departure_time f < arrival_time f) (flights d)"

text \<open>The key that \<open>Model_save\<close> gives to the next row of a table.\<close>

definition next_pk :: "('r \<Rightarrow> nat option) \<Rightarrow> 'r list \<Rightarrow> nat" where
  "next_pk pk_of table = fresh_pk (List.map_filter pk_of table)"

text \<open>A filter that is skipped for an absent or empty parameter, as a plain function.\<close>

definition filter_when :: "string option \<Rightarrow> (string \<Rightarrow> 'a \<Rightarrow> bool) \<Rightarrow> 'a list \<Rightarrow> 'a list" where
  "filter_when param g queryset =
     (case param of
        None \<Rightarrow> queryset
      | Some v \<Rightarrow> if v = [] then queryset else filter (g v) queryset)"

subsection \<open>Sample data\<close>

text \<open>
  The airplane and flight of \<open>sample_flight\<close> in airport/tests (20 rows of 6 seats, a
  flight of two hours with two crew members), and a store with them.
\<close>

definition sample_airplane :: Airplane where
  "sample_airplane =
     \<lparr>airplane_pk = Some 1, airplane_name = ''Airplane'', rows = 20, seats_in_row = 6,
      airplane_type = 1\<rparr>"

definition sample_route :: Route where
  "sample_route =
     \<lparr>route_pk = Some 1,
      source = \<lparr>airport_name = ''Airport1'', closest_big_city = ''City1''\<rparr>,
      destination = \<lparr>airport_name = ''Airport2'', closest_big_city = ''City2''\<rparr>,
      distance = 600\<rparr>"

definition sample_flight :: Flight where
  "sample_flight =
     \<lparr>flight_pk = None, route = sample_route, airplane = sample_airplane,
      departure_time = ((2024, 8, 25), 50400000000),
      arrival_time = ((2024, 8, 25), 57600000000), crew = [1, 2]\<rparr>"

definition sample_now :: datetime where
  "sample_now = ((2024, 8, 1), 0)"

definition sample_airplane_payload :: AirplanePayload where
  "sample_airplane_payload =
     \<lparr>ap_name = Some ''Airplane'', ap_rows = Some 20, ap_seats_in_row = Some 6,
      ap_airplane_type = Some 1\<rparr>"

definition sample_flight_payload :: FlightPayload where
  "sample_flight_payload =
     \<lparr>fp_route = Some 1, fp_airplane = Some 1,
      fp_departure_time = Some ((2024, 8, 25), 50400000000),
      fp_arrival_time = Some ((2024, 8, 25), 57600000000), fp_crew = Some [1, 2]\<rparr>"

definition sample_requests :: "request list" where
  "sample_requests =
     [CreateAirplaneType, CreateAirplane sample_airplane_payload, CreateRoute sample_route,
      CreateCrew, CreateCrew, CreateFlight sample_flight_payload,
      CreateOrder sample_now 7 [(5, 1, 1), (5, 2, 1)],
      CreateOrder sample_now 8 [(7, 3, 1)]]"

definition sample_db :: db where
  "sample_db =
     \<lparr>airplane_types = [1],
      airplanes = [sample_airplane],
      routes = [sample_route],
      crews = [1, 2],
      flights = [sample_flight\<lparr>flight_pk := Some 1\<rparr>],
      orders = [\<lparr>order_pk = Some 1, created_at = sample_now, user = 7\<rparr>,
                \<lparr>order_pk = Some 2, created_at = sample_now, user = 8\<rparr>],
      tickets = [\<lparr>ticket_pk = Some 1, row = 5, seat = 1, flight_id = 1, order_id = 1\<rparr>,
                 \<lparr>ticket_pk = Some 2, row = 5, seat = 2, flight_id = 1, order_id = 1\<rparr>,
                 \<lparr>ticket_pk = Some 3, row = 7, seat = 3, flight_id = 1, order_id = 2\<rparr>]\<rparr>"

subsection \<open>Keys of tickets and further sample data\<close>

definition data_key :: "int \<times> int \<times> Flight \<Rightarrow> int \<times> int \<times> nat option" where
  "data_key td = (case td of (r, s, f) \<Rightarrow> (r, s, flight_pk f))"

definition opt_key :: "Ticket \<Rightarrow> int \<times> int \<times> nat option" where
  "opt_key t = (row t, seat t, Some (flight_id t))"

definition spec_key :: "int \<times> int \<times> nat \<Rightarrow> int \<times> int \<times> nat option" where
  "spec_key sp = (case sp of (r, s, fid) \<Rightarrow> (r, s, Some fid))"

definition order_pks_unique :: "db \<Rightarrow> bool" where
  "order_pks_unique d = distinct (map order_pk (orders d))"

definition single_row_airplane :: Airplane where
  "single_row_airplane =
     \<lparr>airplane_pk = Some 1, airplane_name = ''Glider'', rows = 1, seats_in_row = 6,
      airplane_type = 1\<rparr>"

definition single_row_db :: db where
  "single_row_db =
     \<lparr>airplane_types = [1], airplanes = [single_row_airplane], routes = [sample_route],
      crews = [1, 2],
      flights = [sample_flight\<lparr>flight_pk := Some 1, airplane := single_row_airplane\<rparr>],
      orders = [], tickets = []\<rparr>"

definition sample_ticket :: Ticket where
  "sample_ticket = \<lparr>ticket_pk = None, row = 20, seat = 3, flight_id = 1, order_id = 1\<rparr>"

definition late_flight :: Flight where
  "late_flight = sample_flight\<lparr>departure_time := ((2024, 8, 25), 57600000000)\<rparr>"

definition flat_airplane_payload :: AirplanePayload where
  "flat_airplane_payload =
     \<lparr>ap_name = Some ''Airplane'', ap_rows = Some 0, ap_seats_in_row = Some (- 3),
      ap_airplane_type = Some 1\<rparr>"

definition flat_airplane :: Airplane where
  "flat_airplane =
     \<lparr>airplane_pk = Some 1, airplane_name = ''Airplane'', rows = 0, seats_in_row = - 3,
      airplane_type = 1\<rparr>"

definition crewless_flight_payload :: FlightPayload where
  "crewless_flight_payload = sample_flight_payload\<lparr>fp_crew := Some []\<rparr>"

definition late_flight_payload :: FlightPayload where
  "late_flight_payload =
     sample_flight_payload\<lparr>fp_departure_time := Some ((2024, 8, 25), 57600000000)\<rparr>"

text \<open>
  The five text filters of \<open>FlightViewSet.get_queryset\<close>, which cannot fail, as one
  function; and the condition under which a parameter makes the query fail: it is
  present, not empty, and its conversion raises.
\<close>

definition text_filtered :: "(string \<rightharpoonup> string) \<Rightarrow> Flight list \<Rightarrow> Flight list" where
  "text_filtered query_params queryset0 =
     filter_when (query_params ''airplane'') (\<lambda>v f. icontains (airplane_name (airplane f)) v)
     (filter_when (query_params ''destination_city'')
        (\<lambda>v f. icontains (closest_big_city (destination (route f))) v)
     (filter_when (query_params ''source_city'')
        (\<lambda>v f. icontains (closest_big_city (source (route f))) v)
     (filter_when (query_params ''destination_airport'')
        (\<lambda>v f. icontains (airport_name (destination (route f))) v)
     (filter_when (query_params ''source_airport'')
        (\<lambda>v f. icontains (airport_name (source (route f))) v) queryset0))))"


definition skipped :: "string option \<Rightarrow> bool" where
  "skipped param = (case param of None \<Rightarrow> True | Some v \<Rightarrow> v = [])"

text \<open>Three flights for the crew filter: crews [1, 2], [2] (the earliest) and [3].\<close>

definition early_flight :: Flight where
  "early_flight =
     sample_flight\<lparr>flight_pk := Some 2, departure_time := ((2024, 8, 24), 0),
                   arrival_time := ((2024, 8, 24), 7200000000), crew := [2]\<rparr>"

definition other_crew_flight :: Flight where
  "other_crew_flight = sample_flight\<lparr>flight_pk := Some 3, crew := [3]\<rparr>"

definition sample_flights :: "Flight list" where
  "sample_flights = [sample_flight\<lparr>flight_pk := Some 1\<rparr>, early_flight, other_crew_flight]"

section \<open>Lemmas\<close>

lemma validate_ticket_ok_iff:
  "validate_ticket r s a E = Inr () \<longleftrightarrow> 0 < r \<and> r < rows a \<and> 0 < s \<and> s < seats_in_row a"
  by (auto simp: validate_ticket_def)

lemma is_error_simps [simp]: "is_error (Inl e)" "\<not> is_error (Inr x)"
  by (simp_all add: is_error_def)

lemma is_error_iff: "is_error (r :: error + unit) \<longleftrightarrow> r \<noteq> Inr ()"
  by (cases r) simp_all

lemma TicketSerializer_validate_ok_iff:
  "TicketSerializer_validate (r, s, f) = Inr (r, s, f) \<longleftrightarrow>
     0 < r \<and> r < rows (airplane f) \<and> 0 < s \<and> s < seats_in_row (airplane f)"
  using validate_ticket_ok_iff [of r s "airplane f" RestValidationError]
  by (cases "validate_ticket r s (airplane f) RestValidationError")
     (simp_all add: TicketSerializer_validate_def bind_err_def)

lemma TicketSerializer_validate_error_iff:
  "is_error (TicketSerializer_validate (r, s, f)) \<longleftrightarrow>
     \<not> (0 < r \<and> r < rows (airplane f) \<and> 0 < s \<and> s < seats_in_row (airplane f))"
  using validate_ticket_ok_iff [of r s "airplane f" RestValidationError]
  by (cases "validate_ticket r s (airplane f) RestValidationError")
     (simp_all add: TicketSerializer_validate_def bind_err_def)

lemma Ticket_clean_ok_iff:
  "get_flight d (flight_id t) = Some f \<Longrightarrow>
   Ticket_clean d t = Inr () \<longleftrightarrow>
     0 < row t \<and> row t < rows (airplane f) \<and> 0 < seat t \<and> seat t < seats_in_row (airplane f)"
  by (simp add: Ticket_clean_def validate_ticket_ok_iff)

lemma Ticket_full_clean_error:
  "Ticket_clean d t \<noteq> Inr () \<Longrightarrow> is_error (Ticket_full_clean d t)"
  by (cases "Ticket_clean_fields d t"; cases "Ticket_clean d t")
     (simp_all add: Ticket_full_clean_def bind_err_def)

lemma Ticket_save_error:
  "is_error (Ticket_full_clean d t) \<Longrightarrow> is_error (fst (Ticket_save d t)) \<and> snd (Ticket_save d t) = d"
  by (cases "Ticket_full_clean d t") (simp_all add: Ticket_save_def)

lemma run_validation_item_error:
  "x \<in> set specs \<Longrightarrow> is_error (TicketSerializer_run_validation d x) \<Longrightarrow>
   OrderSerializer_run_validation d specs = Inl (RestValidationError [''tickets''])"
  by (auto simp: OrderSerializer_run_validation_def Let_def list_ex_iff)

lemma create_order_validation_error:
  "OrderSerializer_run_validation d specs = Inl e \<Longrightarrow> create_order d now u specs = (Inl e, d)"
  by (simp add: create_order_def)

lemma TicketSerializer_run_validation_out_of_range:
  "get_flight d fid = Some f \<Longrightarrow>
   \<not> (0 < r \<and> r < rows (airplane f) \<and> 0 < s \<and> s < seats_in_row (airplane f)) \<Longrightarrow>
   is_error (TicketSerializer_run_validation d (r, s, fid))"
  using TicketSerializer_validate_error_iff [of r s f]
  by (simp add: TicketSerializer_run_validation_def)


lemma bind_err_Inr_iff:
  "bind_err m k = Inr y \<longleftrightarrow> (\<exists>x. m = Inr x \<and> k x = Inr y)"
  by (cases m) (simp_all add: bind_err_def)

lemma bind_err_simps [simp]: "bind_err (Inl e) k = Inl e" "bind_err (Inr x) k = k x"
  by (simp_all add: bind_err_def)

lemma get_flight_Some: "get_flight d i = Some f \<Longrightarrow> flight_pk f = Some i \<and> f \<in> set (flights d)"
  by (auto simp: get_flight_def find_Some_iff)

lemma Ticket_full_clean_ok:
  assumes "Ticket_full_clean d t = Inr ()" and "ticket_pk t = None"
  shows "seat_key t \<notin> set (map seat_key (tickets d))" and "Ticket_clean d t = Inr ()"
proof -
  from assms(1) have u: "Ticket_validate_unique d t = Inr ()" and c: "Ticket_clean d t = Inr ()"
    by (auto simp: Ticket_full_clean_def bind_err_Inr_iff)
  show "Ticket_clean d t = Inr ()" by (rule c)
  from u assms(2) show "seat_key t \<notin> set (map seat_key (tickets d))"
    by (auto simp: Ticket_validate_unique_def list_ex_iff seat_key_def split: if_splits)
qed

lemma Ticket_save_new_ok:
  assumes "Ticket_save d t = (Inr t', d')" and "ticket_pk t = None"
  shows "t' = t\<lparr>ticket_pk := Some (next_pk ticket_pk (tickets d))\<rparr>"
    and "d' = d\<lparr>tickets := tickets d @ [t']\<rparr>"
    and "Ticket_full_clean d t = Inr ()"
  using assms
  by (auto simp: Ticket_save_def Model_save_def next_pk_def Let_def split: sum.splits)

lemma Ticket_objects_create_ok:
  assumes "Ticket_objects_create d ord (r, s, f) = (Inr t', d')"
  shows "\<exists>oid fid. order_pk ord = Some oid \<and> flight_pk f = Some fid \<and>
           t' = \<lparr>ticket_pk = Some (next_pk ticket_pk (tickets d)), row = r, seat = s,
                 flight_id = fid, order_id = oid\<rparr> \<and>
           d' = d\<lparr>tickets := tickets d @ [t']\<rparr> \<and>
           (r, s, fid) \<notin> set (map seat_key (tickets d))"
proof -
  from assms obtain oid fid where k: "order_pk ord = Some oid" "flight_pk f = Some fid"
    and sv: "Ticket_save d \<lparr>ticket_pk = None, row = r, seat = s, flight_id = fid, order_id = oid\<rparr>
              = (Inr t', d')"
    by (auto simp: Ticket_objects_create_def split: option.splits)
  let ?t = "\<lparr>ticket_pk = None, row = r, seat = s, flight_id = fid, order_id = oid\<rparr>"
  have pk: "ticket_pk ?t = None" by simp
  from Ticket_save_new_ok [OF sv pk] Ticket_full_clean_ok(1) [of d ?t] k
  show ?thesis by (simp add: seat_key_def)
qed

lemma create_tickets_ok:
  "create_tickets d ord tds = (Inr (), d') \<Longrightarrow>
   \<exists>new. d' = d\<lparr>tickets := tickets d @ new\<rparr> \<and>
         map opt_key new = map data_key tds \<and>
         (\<forall>t \<in> set new. Some (order_id t) = order_pk ord) \<and>
         distinct (map seat_key new) \<and>
         set (map seat_key new) \<inter> set (map seat_key (tickets d)) = {}"
proof (induction tds arbitrary: d)
  case Nil
  then show ?case by simp
next
  case (Cons td tds)
  obtain r s f where td: "td = (r, s, f)" by (cases td) auto
  from Cons.prems obtain t1 d1 where c1: "Ticket_objects_create d ord (r, s, f) = (Inr t1, d1)"
    and rest: "create_tickets d1 ord tds = (Inr (), d')"
    by (auto simp: td split: prod.splits sum.splits)
  from Ticket_objects_create_ok [OF c1] obtain oid fid where
    k: "order_pk ord = Some oid" "flight_pk f = Some fid"
    and t1: "t1 = \<lparr>ticket_pk = Some (next_pk ticket_pk (tickets d)), row = r, seat = s,
                 flight_id = fid, order_id = oid\<rparr>"
    and d1: "d1 = d\<lparr>tickets := tickets d @ [t1]\<rparr>"
    and fresh: "(r, s, fid) \<notin> set (map seat_key (tickets d))"
    by blast
  from Cons.IH [OF rest] obtain new where
    d': "d' = d1\<lparr>tickets := tickets d1 @ new\<rparr>"
    and keys: "map opt_key new = map data_key tds"
    and ord: "\<forall>t \<in> set new. Some (order_id t) = order_pk ord"
    and dist: "distinct (map seat_key new)"
    and disj: "set (map seat_key new) \<inter> set (map seat_key (tickets d1)) = {}"
    by blast
  have sk: "seat_key t1 = (r, s, fid)" by (simp add: t1 seat_key_def)
  have "d' = d\<lparr>tickets := tickets d @ (t1 # new)\<rparr>" by (simp add: d' d1)
  moreover have "map opt_key (t1 # new) = map data_key (td # tds)"
    by (simp add: keys td data_key_def opt_key_def t1 k)
  moreover have "\<forall>t \<in> set (t1 # new). Some (order_id t) = order_pk ord"
    using ord by (simp add: t1 k)
  moreover have "distinct (map seat_key (t1 # new))"
    using dist disj by (auto simp: d1)
  moreover have "set (map seat_key (t1 # new)) \<inter> set (map seat_key (tickets d)) = {}"
    using disj fresh by (auto simp: d1 sk)
  ultimately show ?case by blast
qed

lemma map_filter_Inr:
  "\<not> list_ex is_error results \<Longrightarrow>
   map Inr (List.map_filter (\<lambda>res. case res of Inl _ \<Rightarrow> None | Inr v \<Rightarrow> Some v) results) = results"
proof (induction results)
  case Nil
  then show ?case by (simp add: List.map_filter_simps)
next
  case (Cons a results)
  then show ?case by (cases a) (simp_all add: List.map_filter_simps)
qed

lemma TicketSerializer_run_validation_ok:
  assumes "TicketSerializer_run_validation d (r, s, fid) = Inr v"
  shows "\<exists>f. v = (r, s, f) \<and> get_flight d fid = Some f \<and>
             0 < r \<and> r < rows (airplane f) \<and> 0 < s \<and> s < seats_in_row (airplane f) \<and>
             (r, s, fid) \<notin> set (map seat_key (tickets d))"
proof -
  from assms obtain f where f: "get_flight d fid = Some f"
    and nu: "\<not> list_ex (\<lambda>u. row u = r \<and> seat u = s \<and> flight_id u = fid) (tickets d)"
    and v: "TicketSerializer_validate (r, s, f) = Inr v"
    by (auto simp: TicketSerializer_run_validation_def split: option.splits if_splits)
  from v have "v = (r, s, f)" and "validate_ticket r s (airplane f) RestValidationError = Inr ()"
    by (auto simp: TicketSerializer_validate_def bind_err_Inr_iff)
  with f nu show ?thesis
    by (auto simp: validate_ticket_ok_iff list_ex_iff seat_key_def)
qed

lemma OrderSerializer_run_validation_ok:
  assumes "OrderSerializer_run_validation d specs = Inr vd"
  shows "specs \<noteq> []" and "map Inr vd = map (TicketSerializer_run_validation d) specs"
    and "map data_key vd = map spec_key specs"
proof -
  from assms show ne: "specs \<noteq> []"
    by (auto simp: OrderSerializer_run_validation_def split: if_splits)
  from assms ne have nerr: "\<not> list_ex is_error (map (TicketSerializer_run_validation d) specs)"
    and vd: "vd = List.map_filter (\<lambda>res. case res of Inl _ \<Rightarrow> None | Inr v \<Rightarrow> Some v)
                    (map (TicketSerializer_run_validation d) specs)"
    by (auto simp: OrderSerializer_run_validation_def Let_def split: if_splits)
  show m: "map Inr vd = map (TicketSerializer_run_validation d) specs"
    unfolding vd by (rule map_filter_Inr [OF nerr])
  have len: "length vd = length specs" using arg_cong [OF m, of length] by simp
  show "map data_key vd = map spec_key specs"
  proof (rule nth_equalityI)
    show "length (map data_key vd) = length (map spec_key specs)" using len by simp
  next
    fix i assume "i < length (map data_key vd)"
    then have i: "i < length vd" "i < length specs" using len by simp_all
    obtain r s fid where sp: "specs ! i = (r, s, fid)" by (cases "specs ! i") auto
    from arg_cong [OF m, of "\<lambda>xs. xs ! i"] i
    have "TicketSerializer_run_validation d (r, s, fid) = Inr (vd ! i)" by (simp add: sp)
    from TicketSerializer_run_validation_ok [OF this] obtain f where
      "vd ! i = (r, s, f)" "get_flight d fid = Some f" by blast
    then have "data_key (vd ! i) = spec_key (specs ! i)"
      by (simp add: data_key_def spec_key_def sp get_flight_Some)
    with i show "map data_key vd ! i = map spec_key specs ! i" by simp
  qed
qed

lemma Order_objects_create_eq:
  "Order_objects_create d now u =
     (\<lparr>order_pk = Some (next_pk order_pk (orders d)), created_at = now, user = u\<rparr>,
      d\<lparr>orders := orders d @
          [\<lparr>order_pk = Some (next_pk order_pk (orders d)), created_at = now, user = u\<rparr>]\<rparr>)"
  by (simp add: Order_objects_create_def Model_save_def next_pk_def Let_def)

lemma transaction_atomic_error:
  "is_error (fst (transaction_atomic body d)) \<Longrightarrow> snd (transaction_atomic body d) = d"
  by (auto simp: transaction_atomic_def split: prod.splits sum.splits)

lemma create_order_error_unchanged:
  "is_error (fst (create_order d now u specs)) \<Longrightarrow> snd (create_order d now u specs) = d"
  by (cases "OrderSerializer_run_validation d specs")
     (simp_all add: create_order_def OrderSerializer_create_def transaction_atomic_error)

lemma map_opt_key_eq:
  "map opt_key new = map spec_key specs \<Longrightarrow> map seat_key new = specs"
proof (induction new arbitrary: specs)
  case Nil
  then show ?case by simp
next
  case (Cons t new)
  then obtain sp rest where "specs = sp # rest" by (cases specs) auto
  with Cons show ?case
    by (cases sp) (auto simp: opt_key_def spec_key_def seat_key_def)
qed

lemma create_order_ok:
  assumes "create_order d now u specs = (Inr ord, d')"
  shows "\<exists>new. ord = \<lparr>order_pk = Some (next_pk order_pk (orders d)), created_at = now, user = u\<rparr> \<and>
           d' = d\<lparr>orders := orders d @ [ord], tickets := tickets d @ new\<rparr> \<and>
           map seat_key new = specs \<and> specs \<noteq> [] \<and>
           (\<forall>t \<in> set new. Some (order_id t) = order_pk ord) \<and>
           distinct specs \<and> set specs \<inter> set (map seat_key (tickets d)) = {} \<and>
           (\<forall>sp \<in> set specs. \<not> is_error (TicketSerializer_run_validation d sp))"
proof -
  from assms obtain vd where vd: "OrderSerializer_run_validation d specs = Inr vd"
    and cr: "OrderSerializer_create d now u vd = (Inr ord, d')"
    by (auto simp: create_order_def split: sum.splits)
  let ?ord = "\<lparr>order_pk = Some (next_pk order_pk (orders d)), created_at = now, user = u\<rparr>"
  let ?d1 = "d\<lparr>orders := orders d @ [?ord]\<rparr>"
  from cr have ct: "create_tickets ?d1 ?ord vd = (Inr (), d')" and o: "ord = ?ord"
    by (auto simp: OrderSerializer_create_def transaction_atomic_def
        OrderSerializer_create_body_def Order_objects_create_eq split: prod.splits sum.splits)
  from create_tickets_ok [OF ct] obtain new where
    d': "d' = ?d1\<lparr>tickets := tickets ?d1 @ new\<rparr>"
    and keys: "map opt_key new = map data_key vd"
    and ord: "\<forall>t \<in> set new. Some (order_id t) = order_pk ?ord"
    and dist: "distinct (map seat_key new)"
    and disj: "set (map seat_key new) \<inter> set (map seat_key (tickets ?d1)) = {}"
    by blast
  note v = OrderSerializer_run_validation_ok [OF vd]
  from keys v(3) have sk: "map seat_key new = specs" by (simp add: map_opt_key_eq)
  have valid: "\<forall>sp \<in> set specs. \<not> is_error (TicketSerializer_run_validation d sp)"
  proof
    fix sp assume "sp \<in> set specs"
    then have "TicketSerializer_run_validation d sp \<in> set (map Inr vd)"
      unfolding v(2) by simp
    then show "\<not> is_error (TicketSerializer_run_validation d sp)" by auto
  qed
  have "d' = d\<lparr>orders := orders d @ [ord], tickets := tickets d @ new\<rparr>"
    by (simp add: d' o)
  with o sk v(1) ord dist disj valid show ?thesis
    by (intro exI [of _ new]) simp
qed

lemma create_order_cases:
  obtains (error) "is_error (fst (create_order d now u specs))" "snd (create_order d now u specs) = d"
  | (ok) ord new where "create_order d now u specs =
        (Inr ord, d\<lparr>orders := orders d @ [ord], tickets := tickets d @ new\<rparr>)"
      "ord = \<lparr>order_pk = Some (next_pk order_pk (orders d)), created_at = now, user = u\<rparr>"
      "map seat_key new = specs" "specs \<noteq> []"
      "\<forall>t \<in> set new. Some (order_id t) = order_pk ord"
      "distinct specs" "set specs \<inter> set (map seat_key (tickets d)) = {}"
proof (cases "fst (create_order d now u specs)")
  case (Inl e)
  then have "is_error (fst (create_order d now u specs))" by simp
  then show ?thesis using create_order_error_unchanged error by blast
next
  case (Inr ord)
  then have "create_order d now u specs = (Inr ord, snd (create_order d now u specs))"
    by (metis prod.collapse)
  from create_order_ok [OF this] this show ?thesis using ok by metis
qed

lemma get_object_cases:
  obtains (none) "get_object qs pk = Inl Http404" "\<forall>x \<in> set qs. order_pk x \<noteq> Some pk"
  | (some) x where "get_object qs pk = Inr x" "x \<in> set qs" "order_pk x = Some pk"
proof (cases "find (\<lambda>x. order_pk x = Some pk) qs")
  case None
  have "get_object qs pk = Inl Http404" using None by (simp add: get_object_def)
  moreover have "\<forall>x \<in> set qs. order_pk x \<noteq> Some pk"
    using None by (simp add: find_None_iff)
  ultimately show ?thesis by (rule none)
next
  case (Some x)
  have "get_object qs pk = Inr x" using Some by (simp add: get_object_def)
  moreover have "x \<in> set qs" "order_pk x = Some pk"
    using Some by (auto simp: find_Some_iff)
  ultimately show ?thesis by (rule some)
qed

lemma destroy_order_cases:
  obtains (missing) "destroy_order d u pk = (Inl Http404, d)"
      "\<forall>x \<in> set (orders d). order_pk x = Some pk \<longrightarrow> user x \<noteq> u"
  | (found) x where "destroy_order d u pk = (Inr (), Order_delete d x)"
      "x \<in> set (orders d)" "order_pk x = Some pk" "user x = u"
proof (cases rule: get_object_cases [of "OrderViewSet_get_queryset d u" pk])
  case none
  then have "destroy_order d u pk = (Inl Http404, d)"
      "\<forall>x \<in> set (orders d). order_pk x = Some pk \<longrightarrow> user x \<noteq> u"
    by (auto simp: destroy_order_def OrderViewSet_get_queryset_def)
  then show ?thesis by (rule missing)
next
  case (some x)
  then have "destroy_order d u pk = (Inr (), Order_delete d x)"
      "x \<in> set (orders d)" "order_pk x = Some pk" "user x = u"
    by (auto simp: destroy_order_def OrderViewSet_get_queryset_def)
  then show ?thesis by (rule found)
qed

lemma create_flight_tables:
  "airplanes (snd (create_flight d p)) = airplanes d"
  "orders (snd (create_flight d p)) = orders d"
  "tickets (snd (create_flight d p)) = tickets d"
  by (auto simp: create_flight_def Flight_save_def split: sum.splits prod.splits)

lemma insert_tables [simp]:
  "airplanes (insert_airplane_type d) = airplanes d"
  "flights (insert_airplane_type d) = flights d"
  "orders (insert_airplane_type d) = orders d"
  "tickets (insert_airplane_type d) = tickets d"
  "airplanes (insert_route d r) = airplanes d"
  "flights (insert_route d r) = flights d"
  "orders (insert_route d r) = orders d"
  "tickets (insert_route d r) = tickets d"
  "airplanes (insert_crew d) = airplanes d"
  "flights (insert_crew d) = flights d"
  "orders (insert_crew d) = orders d"
  "tickets (insert_crew d) = tickets d"
  by (simp_all add: insert_airplane_type_def insert_route_def insert_crew_def
      split: prod.splits)

lemma create_airplane_tables:
  "flights (snd (create_airplane d p)) = flights d"
  "orders (snd (create_airplane d p)) = orders d"
  "tickets (snd (create_airplane d p)) = tickets d"
  by (auto simp: create_airplane_def Airplane_objects_create_def
      split: sum.splits prod.splits)

lemma run_induct [consumes 0, case_names empty step]:
  assumes "P empty_db" and "\<And>d req. P d \<Longrightarrow> P (handle d req)"
  shows "P (run requests)"
proof -
  have "P d \<Longrightarrow> P (foldl handle d requests)" for d
    by (induction requests arbitrary: d) (simp_all add: assms(2))
  with assms(1) show ?thesis by (simp add: run_def)
qed

lemma handle_seats_unique: "seats_unique d \<Longrightarrow> seats_unique (handle d req)"
proof (cases req)
  case CreateAirplaneType
  assume "seats_unique d"
  then show ?thesis by (simp add: CreateAirplaneType seats_unique_def)
next
  case (CreateRoute r)
  assume "seats_unique d"
  then show ?thesis by (simp add: CreateRoute seats_unique_def)
next
  case CreateCrew
  assume "seats_unique d"
  then show ?thesis by (simp add: CreateCrew seats_unique_def)
next
  case (CreateAirplane p)
  assume "seats_unique d"
  then show ?thesis by (simp add: CreateAirplane seats_unique_def create_airplane_tables)
next
  case (CreateFlight p)
  assume "seats_unique d"
  then show ?thesis by (simp add: CreateFlight seats_unique_def create_flight_tables)
next
  case (CreateOrder now u specs)
  assume a: "seats_unique d"
  show ?thesis
  proof (cases rule: create_order_cases [of d now u specs])
    case error
    with a show ?thesis by (simp add: CreateOrder)
  next
    case (ok ord new)
    with a show ?thesis by (auto simp: CreateOrder seats_unique_def)
  qed
next
  case (DestroyOrder u pk)
  assume a: "seats_unique d"
  show ?thesis
  proof (cases rule: destroy_order_cases [of d u pk])
    case missing
    with a show ?thesis by (simp add: DestroyOrder)
  next
    case (found x)
    with a show ?thesis
      by (simp add: DestroyOrder seats_unique_def Order_delete_def distinct_map_filter)
  qed
qed

lemma handle_orders_tickets:
  assumes "orders_have_tickets d \<and> tickets_have_orders d"
  shows "orders_have_tickets (handle d req) \<and> tickets_have_orders (handle d req)"
proof (cases req)
  case CreateAirplaneType
  with assms show ?thesis by (simp add: orders_have_tickets_def tickets_have_orders_def)
next
  case (CreateRoute r)
  with assms show ?thesis by (simp add: orders_have_tickets_def tickets_have_orders_def)
next
  case CreateCrew
  with assms show ?thesis by (simp add: orders_have_tickets_def tickets_have_orders_def)
next
  case (CreateAirplane p)
  with assms show ?thesis
    by (simp add: orders_have_tickets_def tickets_have_orders_def create_airplane_tables)
next
  case (CreateFlight p)
  with assms show ?thesis
    by (simp add: orders_have_tickets_def tickets_have_orders_def create_flight_tables)
next
  case (CreateOrder now u specs)
  show ?thesis
  proof (cases rule: create_order_cases [of d now u specs])
    case error
    with assms show ?thesis by (simp add: CreateOrder)
  next
    case (ok ord new)
    from ok(3,4) have "new \<noteq> []" by auto
    then obtain t where "t \<in> set new" by (cases new) auto
    with ok(5) have "\<exists>t \<in> set new. Some (order_id t) = order_pk ord" by blast
    with assms ok(1,5) show ?thesis
      by (auto simp: CreateOrder orders_have_tickets_def tickets_have_orders_def
          list_all_iff list_ex_iff)
  qed
next
  case (DestroyOrder u pk)
  show ?thesis
  proof (cases rule: destroy_order_cases [of d u pk])
    case missing
    with assms show ?thesis by (simp add: DestroyOrder)
  next
    case (found x)
    then have os: "orders (handle d req) = filter (\<lambda>y. order_pk y \<noteq> Some pk) (orders d)"
      and ts: "tickets (handle d req) = filter (\<lambda>t. order_id t \<noteq> pk) (tickets d)"
      by (simp_all add: DestroyOrder Order_delete_def)
    have "orders_have_tickets (handle d req)"
      unfolding orders_have_tickets_def list_all_iff list_ex_iff os ts
    proof
      fix y assume "y \<in> set (filter (\<lambda>y. order_pk y \<noteq> Some pk) (orders d))"
      then have y: "y \<in> set (orders d)" "order_pk y \<noteq> Some pk" by auto
      with assms obtain t where "t \<in> set (tickets d)" "Some (order_id t) = order_pk y"
        by (auto simp: orders_have_tickets_def list_all_iff list_ex_iff)
      with y(2) show "\<exists>t \<in> set (filter (\<lambda>t. order_id t \<noteq> pk) (tickets d)).
                        Some (order_id t) = order_pk y"
        by (intro bexI [of _ t]) auto
    qed
    moreover have "tickets_have_orders (handle d req)"
      unfolding tickets_have_orders_def list_all_iff list_ex_iff os ts
    proof
      fix t assume "t \<in> set (filter (\<lambda>t. order_id t \<noteq> pk) (tickets d))"
      then have t: "t \<in> set (tickets d)" "order_id t \<noteq> pk" by auto
      with assms obtain y where "y \<in> set (orders d)" "order_pk y = Some (order_id t)"
        by (auto simp: tickets_have_orders_def list_all_iff list_ex_iff)
      with t(2) show "\<exists>y \<in> set (filter (\<lambda>y. order_pk y \<noteq> Some pk) (orders d)).
                        order_pk y = Some (order_id t)"
        by (intro bexI [of _ y]) auto
    qed
    ultimately show ?thesis by simp
  qed
qed

lemma foldr_max_ge: "x \<in> set xs \<Longrightarrow> x \<le> foldr max xs (0::nat)"
  by (induction xs) (auto simp: max_def)

lemma next_pk_fresh: "x \<in> set table \<Longrightarrow> pk_of x \<noteq> Some (next_pk pk_of table)"
proof
  assume x: "x \<in> set table" and "pk_of x = Some (next_pk pk_of table)"
  then have "next_pk pk_of table \<in> set (List.map_filter pk_of table)"
    by (force simp: List.map_filter_def)
  from foldr_max_ge [OF this] show False by (simp add: next_pk_def fresh_pk_def)
qed

lemma handle_order_pks_unique: "order_pks_unique d \<Longrightarrow> order_pks_unique (handle d req)"
proof (cases req)
  case CreateAirplaneType
  assume "order_pks_unique d"
  then show ?thesis by (simp add: CreateAirplaneType order_pks_unique_def)
next
  case (CreateRoute r)
  assume "order_pks_unique d"
  then show ?thesis by (simp add: CreateRoute order_pks_unique_def)
next
  case CreateCrew
  assume "order_pks_unique d"
  then show ?thesis by (simp add: CreateCrew order_pks_unique_def)
next
  case (CreateAirplane p)
  assume "order_pks_unique d"
  then show ?thesis by (simp add: CreateAirplane order_pks_unique_def create_airplane_tables)
next
  case (CreateFlight p)
  assume "order_pks_unique d"
  then show ?thesis by (simp add: CreateFlight order_pks_unique_def create_flight_tables)
next
  case (CreateOrder now u specs)
  assume a: "order_pks_unique d"
  show ?thesis
  proof (cases rule: create_order_cases [of d now u specs])
    case error
    with a show ?thesis by (simp add: CreateOrder)
  next
    case (ok ord new)
    have "order_pk ord \<notin> set (map order_pk (orders d))"
    proof
      assume "order_pk ord \<in> set (map order_pk (orders d))"
      then obtain x where x: "x \<in> set (orders d)" "order_pk x = order_pk ord" by auto
      from next_pk_fresh [OF x(1), of order_pk] x(2) show False by (simp add: ok(2))
    qed
    with a ok(1) show ?thesis by (simp add: CreateOrder order_pks_unique_def)
  qed
next
  case (DestroyOrder u pk)
  assume a: "order_pks_unique d"
  show ?thesis
  proof (cases rule: destroy_order_cases [of d u pk])
    case missing
    with a show ?thesis by (simp add: DestroyOrder)
  next
    case (found x)
    with a show ?thesis
      by (simp add: DestroyOrder order_pks_unique_def Order_delete_def distinct_map_filter)
  qed
qed

lemma empty_db_tables [simp]:
  "airplane_types empty_db = []" "airplanes empty_db = []" "routes empty_db = []"
  "crews empty_db = []" "flights empty_db = []" "orders empty_db = []" "tickets empty_db = []"
  by (simp_all add: empty_db_def)

lemma run_seats_unique: "seats_unique (run requests)"
proof (induction rule: run_induct)
  case empty
  show ?case by (simp add: seats_unique_def)
next
  case (step d req)
  then show ?case by (rule handle_seats_unique)
qed

lemma run_orders_tickets:
  "orders_have_tickets (run requests) \<and> tickets_have_orders (run requests)"
proof (induction rule: run_induct)
  case empty
  show ?case by (simp add: orders_have_tickets_def tickets_have_orders_def)
next
  case (step d req)
  then show ?case by (rule handle_orders_tickets)
qed

lemma run_order_pks_unique: "order_pks_unique (run requests)"
proof (induction rule: run_induct)
  case empty
  show ?case by (simp add: order_pks_unique_def)
next
  case (step d req)
  then show ?case by (rule handle_order_pks_unique)
qed

lemma create_order_empty:
  "create_order d now u [] = (Inl (RestValidationError [''tickets'']), d)"
  by (simp add: create_order_def OrderSerializer_run_validation_def)

lemma create_order_fails_if:
  assumes "\<not> distinct specs \<or> set specs \<inter> set (map seat_key (tickets d)) \<noteq> {} \<or> specs = []"
  shows "is_error (fst (create_order d now u specs)) \<and> snd (create_order d now u specs) = d"
proof (cases rule: create_order_cases [of d now u specs])
  case error
  then show ?thesis by simp
next
  case (ok ord new)
  with assms show ?thesis by blast
qed

lemma tickets_available_eq:
  "flight_pk f = Some i \<Longrightarrow>
   tickets_available d f =
     Inr (rows (airplane f) * seats_in_row (airplane f) -
          int (length (filter (\<lambda>t. flight_id t = i) (tickets d))))"
  by (simp add: tickets_available_def capacity_def tickets_count_def)

lemma length_filter_seat_key:
  "length (filter (\<lambda>t. flight_id t = i) new) =
   length (filter (\<lambda>sp. snd (snd sp) = i) (map seat_key new))"
  by (induction new) (simp_all add: seat_key_def)

lemma tickets_count_create_order:
  assumes "create_order d now u specs = (Inr ord, d')"
  shows "tickets_count d' i = tickets_count d i + length (filter (\<lambda>sp. snd (snd sp) = i) specs)"
proof -
  from create_order_ok [OF assms] obtain new where
    "d' = d\<lparr>orders := orders d @ [ord], tickets := tickets d @ new\<rparr>"
    "map seat_key new = specs" by blast
  then show ?thesis
    using length_filter_seat_key [of i new] by (simp add: tickets_count_def)
qed

lemma length_filter_split:
  "length (filter P xs) =
   length (filter (\<lambda>x. P x \<and> Q x) xs) + length (filter (\<lambda>x. P x \<and> \<not> Q x) xs)"
  by (induction xs) simp_all

lemma tickets_count_destroy_order:
  assumes "destroy_order d u pk = (Inr (), d')"
  shows "tickets_count d i =
         tickets_count d' i + length (filter (\<lambda>t. flight_id t = i \<and> order_id t = pk) (tickets d))"
proof (cases rule: destroy_order_cases [of d u pk])
  case missing
  with assms show ?thesis by simp
next
  case (found x)
  with assms have "d' = Order_delete d x" by simp
  with found(3) have "tickets d' = filter (\<lambda>t. order_id t \<noteq> pk) (tickets d)"
    by (simp add: Order_delete_def)
  then show ?thesis
    using length_filter_split [of "\<lambda>t. flight_id t = i" "tickets d" "\<lambda>t. order_id t = pk"]
    by (simp add: tickets_count_def conj_commute)
qed

lemma retrieve_order_cases:
  obtains (missing) "retrieve_order d u pk = Inl Http404"
      "\<forall>x \<in> set (orders d). order_pk x = Some pk \<longrightarrow> user x \<noteq> u"
  | (found) x where "retrieve_order d u pk = Inr x"
      "x \<in> set (orders d)" "order_pk x = Some pk" "user x = u"
proof (cases rule: get_object_cases [of "OrderViewSet_get_queryset d u" pk])
  case none
  then have "retrieve_order d u pk = Inl Http404"
      "\<forall>x \<in> set (orders d). order_pk x = Some pk \<longrightarrow> user x \<noteq> u"
    by (auto simp: retrieve_order_def OrderViewSet_get_queryset_def)
  then show ?thesis by (rule missing)
next
  case (some x)
  then have "retrieve_order d u pk = Inr x"
      "x \<in> set (orders d)" "order_pk x = Some pk" "user x = u"
    by (auto simp: retrieve_order_def OrderViewSet_get_queryset_def)
  then show ?thesis by (rule found)
qed

lemma foreign_order_not_found:
  assumes "\<forall>y \<in> set (orders d). order_pk y = Some pk \<longrightarrow> user y \<noteq> u"
  shows "retrieve_order d u pk = Inl Http404" and "destroy_order d u pk = (Inl Http404, d)"
proof -
  show "retrieve_order d u pk = Inl Http404"
  proof (cases rule: retrieve_order_cases [of d u pk])
    case missing
    then show ?thesis by simp
  next
    case (found x)
    with assms show ?thesis by blast
  qed
  show "destroy_order d u pk = (Inl Http404, d)"
  proof (cases rule: destroy_order_cases [of d u pk])
    case missing
    then show ?thesis by simp
  next
    case (found x)
    with assms show ?thesis by blast
  qed
qed

lemma unique_pk_owner:
  assumes "order_pks_unique d" "x \<in> set (orders d)" "order_pk x = Some pk" "user x \<noteq> u"
  shows "\<forall>y \<in> set (orders d). order_pk y = Some pk \<longrightarrow> user y \<noteq> u"
proof (intro ballI impI)
  fix y assume "y \<in> set (orders d)" "order_pk y = Some pk"
  with assms(1-3) have "y = x"
    by (auto simp: order_pks_unique_def distinct_map inj_on_def)
  with assms(4) show "user y \<noteq> u" by simp
qed

lemma Flight_full_clean_error_iff:
  "is_error (Flight_full_clean d f) \<longleftrightarrow>
     Flight_clean_fields d f \<noteq> [] \<or> departure_time f \<ge> arrival_time f"
  by (simp add: Flight_full_clean_def Flight_clean_def Let_def)

lemma Flight_save_error_iff:
  "is_error (fst (Flight_save d f)) \<longleftrightarrow>
     Flight_clean_fields d f \<noteq> [] \<or> departure_time f \<ge> arrival_time f"
  using Flight_full_clean_error_iff [of d f]
  by (cases "Flight_full_clean d f") (simp_all add: Flight_save_def split: prod.splits)

lemma Flight_save_error_unchanged:
  "is_error (fst (Flight_save d f)) \<Longrightarrow> snd (Flight_save d f) = d"
  by (cases "Flight_full_clean d f") (simp_all add: Flight_save_def split: prod.splits)

lemma Flight_clean_fields_empty_iff:
  "Flight_clean_fields d f = [] \<longleftrightarrow>
     (\<exists>i. route_pk (route f) = Some i \<and> list_ex (\<lambda>r. route_pk r = Some i) (routes d)) \<and>
     (\<exists>j. airplane_pk (airplane f) = Some j \<and> list_ex (\<lambda>a. airplane_pk a = Some j) (airplanes d))"
  by (auto simp: Flight_clean_fields_def split: option.splits)

lemma Flight_clean_fields_times [simp]:
  "Flight_clean_fields d (f\<lparr>departure_time := x\<rparr>) = Flight_clean_fields d f"
  "Flight_clean_fields d (f\<lparr>arrival_time := y\<rparr>) = Flight_clean_fields d f"
  "Flight_clean_fields d (f\<lparr>crew := ks\<rparr>) = Flight_clean_fields d f"
  by (simp_all add: Flight_clean_fields_def)

lemma find_pk_Some:
  "find (\<lambda>r. pk_of r = Some k) table = Some x \<Longrightarrow>
   pk_of x = Some k \<and> list_ex (\<lambda>r. pk_of r = Some k) table"
  by (auto simp: find_Some_iff list_ex_iff)

lemma FlightSerializer_to_internal_value_ok:
  assumes "FlightSerializer_to_internal_value d p = Inr attrs"
  shows "Flight_clean_fields d attrs = []"
    and "fp_departure_time p = Some (departure_time attrs)"
    and "fp_arrival_time p = Some (arrival_time attrs)"
    and "flight_pk attrs = None"
    and "fp_crew p = Some (crew attrs)" and "crew attrs \<noteq> []"
    and "list_all (\<lambda>k. k \<in> set (crews d)) (crew attrs)"
proof -
  from assms obtain r a dep arr ks where
    r: "Option.bind (fp_route p) (\<lambda>k. find (\<lambda>r. route_pk r = Some k) (routes d)) = Some r"
    and a: "Option.bind (fp_airplane p) (\<lambda>k. find (\<lambda>a. airplane_pk a = Some k) (airplanes d))
            = Some a"
    and t: "fp_departure_time p = Some dep" "fp_arrival_time p = Some arr"
    and c: "Option.bind (fp_crew p)
              (\<lambda>ks. if ks = [] \<or> \<not> list_all (\<lambda>k. k \<in> set (crews d)) ks then None else Some ks)
            = Some ks"
    and attrs: "attrs = \<lparr>flight_pk = None, route = r, airplane = a, departure_time = dep,
                  arrival_time = arr, crew = ks\<rparr>"
    by (auto simp: FlightSerializer_to_internal_value_def Let_def split: option.splits)
  from r obtain k where "find (\<lambda>r. route_pk r = Some k) (routes d) = Some r"
    by (auto simp: bind_eq_Some_conv)
  from find_pk_Some [OF this] have r': "route_pk r = Some k"
    "list_ex (\<lambda>r. route_pk r = Some k) (routes d)" by simp_all
  from a obtain j where "find (\<lambda>a. airplane_pk a = Some j) (airplanes d) = Some a"
    by (auto simp: bind_eq_Some_conv)
  from find_pk_Some [OF this] have a': "airplane_pk a = Some j"
    "list_ex (\<lambda>a. airplane_pk a = Some j) (airplanes d)" by simp_all
  from r' a' show "Flight_clean_fields d attrs = []"
    by (simp add: attrs Flight_clean_fields_def)
  from t show "fp_departure_time p = Some (departure_time attrs)"
    "fp_arrival_time p = Some (arrival_time attrs)" by (simp_all add: attrs)
  show "flight_pk attrs = None" by (simp add: attrs)
  from c show "fp_crew p = Some (crew attrs)" "crew attrs \<noteq> []"
    "list_all (\<lambda>k. k \<in> set (crews d)) (crew attrs)"
    by (auto simp: attrs bind_eq_Some_conv split: if_splits)
qed

lemma create_flight_error_unchanged:
  "is_error (fst (create_flight d p)) \<Longrightarrow> snd (create_flight d p) = d"
  by (cases "FlightSerializer_run_validation d p")
     (simp_all add: create_flight_def Flight_save_error_unchanged)

lemma create_flight_late:
  assumes "fp_departure_time p = Some dep" "fp_arrival_time p = Some arr" "dep \<ge> arr"
  shows "is_error (fst (create_flight d p))"
proof (cases "FlightSerializer_to_internal_value d p")
  case (Inl e)
  then show ?thesis by (simp add: create_flight_def FlightSerializer_run_validation_def)
next
  case (Inr attrs)
  from FlightSerializer_to_internal_value_ok(2,3) [OF Inr] assms
  have "departure_time attrs \<ge> arrival_time attrs" by simp
  with Inr show ?thesis
    by (simp add: create_flight_def FlightSerializer_run_validation_def
        FlightSerializer_validate_def)
qed

lemma create_flight_valid_fields:
  assumes "FlightSerializer_to_internal_value d p = Inr attrs"
  shows "is_error (fst (create_flight d p)) \<longleftrightarrow> departure_time attrs \<ge> arrival_time attrs"
proof (cases "departure_time attrs \<ge> arrival_time attrs")
  case True
  with assms show ?thesis
    by (simp add: create_flight_def FlightSerializer_run_validation_def
        FlightSerializer_validate_def)
next
  case False
  with assms FlightSerializer_to_internal_value_ok(1) [OF assms] show ?thesis
    by (simp add: create_flight_def FlightSerializer_run_validation_def
        FlightSerializer_validate_def Flight_save_error_iff)
qed

lemma Flight_save_well_timed:
  assumes "flights_well_timed d"
  shows "flights_well_timed (snd (Flight_save d f))"
proof (cases "is_error (fst (Flight_save d f))")
  case True
  with assms show ?thesis by (simp add: Flight_save_error_unchanged)
next
  case False
  then have lt: "departure_time f < arrival_time f" and ok: "Flight_full_clean d f = Inr ()"
    using Flight_full_clean_error_iff [of d f]
    by (auto simp: Flight_save_error_iff not_le) (cases "Flight_full_clean d f", auto)
  with assms show ?thesis
    by (auto simp: Flight_save_def Model_save_def Let_def
        flights_well_timed_def list_all_iff split: option.splits)
qed

lemma create_flight_well_timed:
  assumes "flights_well_timed d"
  shows "flights_well_timed (snd (create_flight d p))"
proof (cases "FlightSerializer_run_validation d p")
  case (Inl e)
  with assms show ?thesis by (simp add: create_flight_def)
next
  case (Inr attrs)
  with Flight_save_well_timed [OF assms] show ?thesis by (simp add: create_flight_def)
qed

lemma handle_flights_well_timed: "flights_well_timed d \<Longrightarrow> flights_well_timed (handle d req)"
proof (cases req)
  case CreateAirplaneType
  assume "flights_well_timed d"
  then show ?thesis by (simp add: CreateAirplaneType flights_well_timed_def)
next
  case (CreateRoute r)
  assume "flights_well_timed d"
  then show ?thesis by (simp add: CreateRoute flights_well_timed_def)
next
  case CreateCrew
  assume "flights_well_timed d"
  then show ?thesis by (simp add: CreateCrew flights_well_timed_def)
next
  case (CreateAirplane p)
  assume "flights_well_timed d"
  then show ?thesis by (simp add: CreateAirplane flights_well_timed_def create_airplane_tables)
next
  case (CreateFlight p)
  assume "flights_well_timed d"
  then show ?thesis by (simp add: CreateFlight create_flight_well_timed)
next
  case (CreateOrder now u specs)
  assume a: "flights_well_timed d"
  show ?thesis
  proof (cases rule: create_order_cases [of d now u specs])
    case error
    with a show ?thesis by (simp add: CreateOrder)
  next
    case (ok ord new)
    with a show ?thesis by (simp add: CreateOrder flights_well_timed_def)
  qed
next
  case (DestroyOrder u pk)
  assume a: "flights_well_timed d"
  show ?thesis
  proof (cases rule: destroy_order_cases [of d u pk])
    case missing
    with a show ?thesis by (simp add: DestroyOrder)
  next
    case (found x)
    with a show ?thesis by (simp add: DestroyOrder flights_well_timed_def Order_delete_def)
  qed
qed

lemma run_flights_well_timed: "flights_well_timed (run requests)"
proof (induction rule: run_induct)
  case empty
  show ?case by (simp add: flights_well_timed_def)
next
  case (step d req)
  then show ?case by (rule handle_flights_well_timed)
qed

lemma when_param_pure:
  "when_param p (\<lambda>v q. Inr (filter (g v) q)) qs = Inr (filter_when p g qs)"
  by (simp add: when_param_def filter_when_def split: option.splits)

lemma get_queryset_stages:
  "get_queryset query_params qs =
     bind_err (when_param (query_params ''crew'')
       (\<lambda>v q. bind_err (params_to_ints v) (\<lambda>crew_ids. Inr (filter_crew_id_in crew_ids q)))
       (text_filtered query_params qs))
     (\<lambda>queryset.
     bind_err (when_param (query_params ''date_departure'')
       (\<lambda>v q. bind_err (strptime_date v)
          (\<lambda>date_departure. Inr (filter (\<lambda>f. departure_time f \<ge> (date_departure, 0)) q))) queryset)
     (\<lambda>queryset.
     bind_err (when_param (query_params ''date_arrival'')
       (\<lambda>v q. bind_err (strptime_date v)
          (\<lambda>date_arrival. Inr (filter (\<lambda>f. arrival_time f \<ge> (date_arrival, 0)) q))) queryset)
     (\<lambda>queryset.
     Inr (sort_key departure_time (remdups queryset)))))"
  unfolding get_queryset_def text_filtered_def when_param_pure bind_err_simps ..

lemma set_filter_when: "set (filter_when p g qs) \<subseteq> set qs"
  by (auto simp: filter_when_def split: option.splits)

lemma set_text_filtered: "set (text_filtered query_params qs) \<subseteq> set qs"
  unfolding text_filtered_def
  by (meson set_filter_when subset_trans)

lemma text_filtered_skipped:
  "skipped (query_params ''source_airport'') \<Longrightarrow>
   skipped (query_params ''destination_airport'') \<Longrightarrow>
   skipped (query_params ''source_city'') \<Longrightarrow>
   skipped (query_params ''destination_city'') \<Longrightarrow>
   skipped (query_params ''airplane'') \<Longrightarrow>
   text_filtered query_params qs = qs"
  by (simp add: text_filtered_def filter_when_def skipped_def split: option.splits)

lemma set_filter_crew_id_in:
  "set (filter_crew_id_in ids qs) = {f \<in> set qs. set (crew f) \<inter> set ids \<noteq> {}}"
  by (auto simp: filter_crew_id_in_def filter_empty_conv)



lemma when_param_skipped: "skipped p \<Longrightarrow> when_param p K q = Inr q"
  by (auto simp: when_param_def skipped_def split: option.splits)

lemma when_param_Inr:
  "when_param p K q = Inr q' \<Longrightarrow>
   (skipped p \<and> q' = q) \<or> (\<exists>v. p = Some v \<and> v \<noteq> [] \<and> K v q = Inr q')"
  by (auto simp: when_param_def skipped_def split: option.splits if_splits)









lemma get_queryset_Inr:
  assumes "get_queryset query_params qs = Inr result"
  obtains q1 q2 q3 where
    "when_param (query_params ''crew'')
       (\<lambda>v q. bind_err (params_to_ints v) (\<lambda>crew_ids. Inr (filter_crew_id_in crew_ids q)))
       (text_filtered query_params qs) = Inr q1"
    "when_param (query_params ''date_departure'')
       (\<lambda>v q. bind_err (strptime_date v)
          (\<lambda>date_departure. Inr (filter (\<lambda>f. departure_time f \<ge> (date_departure, 0)) q))) q1
     = Inr q2"
    "when_param (query_params ''date_arrival'')
       (\<lambda>v q. bind_err (strptime_date v)
          (\<lambda>date_arrival. Inr (filter (\<lambda>f. arrival_time f \<ge> (date_arrival, 0)) q))) q2
     = Inr q3"
    "result = sort_key departure_time (remdups q3)"
  using assms unfolding get_queryset_stages bind_err_Inr_iff by auto

lemma date_stage_subset:
  "when_param p (\<lambda>v q. bind_err (strptime_date v) (\<lambda>x. Inr (filter (g x) q))) q1 = Inr q2 \<Longrightarrow>
   set q2 \<subseteq> set q1"
  by (auto dest!: when_param_Inr simp: bind_err_Inr_iff)

lemma crew_stage_subset:
  "when_param p
     (\<lambda>v q. bind_err (params_to_ints v) (\<lambda>crew_ids. Inr (filter_crew_id_in crew_ids q))) q0
   = Inr q1 \<Longrightarrow> set q1 \<subseteq> set q0"
  by (auto dest!: when_param_Inr simp: bind_err_Inr_iff set_filter_crew_id_in)

lemma get_queryset_result:
  assumes "get_queryset query_params qs = Inr result"
  shows "distinct result" and "sorted (map departure_time result)" and "set result \<subseteq> set qs"
proof -
  from assms obtain q1 q2 q3 where
    s1: "when_param (query_params ''crew'')
       (\<lambda>v q. bind_err (params_to_ints v) (\<lambda>crew_ids. Inr (filter_crew_id_in crew_ids q)))
       (text_filtered query_params qs) = Inr q1"
    and s2: "when_param (query_params ''date_departure'')
       (\<lambda>v q. bind_err (strptime_date v)
          (\<lambda>date_departure. Inr (filter (\<lambda>f. departure_time f \<ge> (date_departure, 0)) q))) q1
     = Inr q2"
    and s3: "when_param (query_params ''date_arrival'')
       (\<lambda>v q. bind_err (strptime_date v)
          (\<lambda>date_arrival. Inr (filter (\<lambda>f. arrival_time f \<ge> (date_arrival, 0)) q))) q2
     = Inr q3"
    and r: "result = sort_key departure_time (remdups q3)"
    by (rule get_queryset_Inr)
  show "distinct result" by (simp add: r)
  show "sorted (map departure_time result)" by (simp add: r)
  from crew_stage_subset [OF s1] date_stage_subset [OF s2] date_stage_subset [OF s3]
    set_text_filtered [of query_params qs]
  show "set result \<subseteq> set qs" by (auto simp: r)
qed

lemma get_queryset_crew_members:
  assumes "get_queryset query_params qs = Inr result"
    and "query_params ''crew'' = Some c" "c \<noteq> []" "params_to_ints c = Inr crew_ids"
  shows "\<forall>f \<in> set result. set (crew f) \<inter> set crew_ids \<noteq> {}"
proof -
  from assms(1) obtain q1 q2 q3 where
    s1: "when_param (query_params ''crew'')
       (\<lambda>v q. bind_err (params_to_ints v) (\<lambda>crew_ids. Inr (filter_crew_id_in crew_ids q)))
       (text_filtered query_params qs) = Inr q1"
    and s2: "when_param (query_params ''date_departure'')
       (\<lambda>v q. bind_err (strptime_date v)
          (\<lambda>date_departure. Inr (filter (\<lambda>f. departure_time f \<ge> (date_departure, 0)) q))) q1
     = Inr q2"
    and s3: "when_param (query_params ''date_arrival'')
       (\<lambda>v q. bind_err (strptime_date v)
          (\<lambda>date_arrival. Inr (filter (\<lambda>f. arrival_time f \<ge> (date_arrival, 0)) q))) q2
     = Inr q3"
    and r: "result = sort_key departure_time (remdups q3)"
    by (rule get_queryset_Inr)
  from s1 assms(2-4) have "q1 = filter_crew_id_in crew_ids (text_filtered query_params qs)"
    by (simp add: when_param_def)
  then have "\<forall>f \<in> set q1. set (crew f) \<inter> set crew_ids \<noteq> {}"
    by (simp add: set_filter_crew_id_in)
  with date_stage_subset [OF s2] date_stage_subset [OF s3] show ?thesis
    by (auto simp: r)
qed

lemma get_queryset_crew_only:
  assumes "query_params ''crew'' = Some c" "c \<noteq> []" "params_to_ints c = Inr crew_ids"
    and "skipped (query_params ''source_airport'')"
    and "skipped (query_params ''destination_airport'')"
    and "skipped (query_params ''source_city'')"
    and "skipped (query_params ''destination_city'')"
    and "skipped (query_params ''airplane'')"
    and "skipped (query_params ''date_departure'')"
    and "skipped (query_params ''date_arrival'')"
  shows "get_queryset query_params qs =
           Inr (sort_key departure_time (remdups (filter_crew_id_in crew_ids qs)))"
  unfolding get_queryset_stages
  using assms
  by (simp add: text_filtered_skipped when_param_skipped) (simp add: when_param_def)


section \<open>The claims\<close>

text \<open>
  Claim C1. \<open>validate_ticket(row, seat, airplane)\<close> succeeds if and only if
  \<open>0 < row < airplane.rows\<close> and \<open>0 < seat < airplane.seats_in_row\<close>, both bounds exclusive;
  it fails for row 0, row = rows, seat 0 and seat = seats_in_row. The same rule decides
  \<open>Ticket.clean\<close>, which runs in \<open>Ticket.save\<close> (direct creation of a ticket, which then fails
  and stores nothing), and \<open>TicketSerializer.validate\<close> (a ticket nested under an order).
\<close>

theorem validate_ticket_exclusive_bounds:
  "(validate_ticket r s a error_to_raise = Inr () \<longleftrightarrow>
      0 < r \<and> r < rows a \<and> 0 < s \<and> s < seats_in_row a) \<and>
   validate_ticket 0 s a error_to_raise \<noteq> Inr () \<and>
   validate_ticket (rows a) s a error_to_raise \<noteq> Inr () \<and>
   validate_ticket r 0 a error_to_raise \<noteq> Inr () \<and>
   validate_ticket r (seats_in_row a) a error_to_raise \<noteq> Inr () \<and>
   (get_flight d (flight_id t) = Some f \<longrightarrow>
      (Ticket_clean d t = Inr () \<longleftrightarrow>
         0 < row t \<and> row t < rows (airplane f) \<and>
         0 < seat t \<and> seat t < seats_in_row (airplane f)) \<and>
      (\<not> (0 < row t \<and> row t < rows (airplane f) \<and>
          0 < seat t \<and> seat t < seats_in_row (airplane f)) \<longrightarrow>
         is_error (fst (Ticket_save d t)) \<and> snd (Ticket_save d t) = d)) \<and>
   (TicketSerializer_validate (r, s, f) = Inr (r, s, f) \<longleftrightarrow>
      0 < r \<and> r < rows (airplane f) \<and> 0 < s \<and> s < seats_in_row (airplane f)) \<and>
   (is_error (TicketSerializer_validate (r, s, f)) \<longleftrightarrow>
      \<not> (0 < r \<and> r < rows (airplane f) \<and> 0 < s \<and> s < seats_in_row (airplane f)))"
proof -
  have clean: "Ticket_clean d t = Inr () \<longleftrightarrow>
         0 < row t \<and> row t < rows (airplane f) \<and>
         0 < seat t \<and> seat t < seats_in_row (airplane f)"
    if "get_flight d (flight_id t) = Some f"
    using that by (rule Ticket_clean_ok_iff)
  have save: "is_error (fst (Ticket_save d t)) \<and> snd (Ticket_save d t) = d"
    if "get_flight d (flight_id t) = Some f"
      and "\<not> (0 < row t \<and> row t < rows (airplane f) \<and>
          0 < seat t \<and> seat t < seats_in_row (airplane f))"
  proof -
    from that clean have "Ticket_clean d t \<noteq> Inr ()" by blast
    then show ?thesis by (intro Ticket_save_error Ticket_full_clean_error)
  qed
  show ?thesis
    using clean save
    by (simp add: validate_ticket_ok_iff TicketSerializer_validate_ok_iff
        TicketSerializer_validate_error_iff)
qed

theorem validate_ticket_exclusive_bounds_witness:
  "get_flight sample_db (flight_id sample_ticket) = Some (sample_flight\<lparr>flight_pk := Some 1\<rparr>) \<and>
   validate_ticket 19 5 sample_airplane RestValidationError = Inr () \<and>
   validate_ticket 20 5 sample_airplane RestValidationError \<noteq> Inr () \<and>
   validate_ticket 19 6 sample_airplane RestValidationError \<noteq> Inr () \<and>
   Ticket_clean sample_db sample_ticket \<noteq> Inr () \<and>
   \<not> (0 < row sample_ticket \<and> row sample_ticket < rows sample_airplane \<and>
      0 < seat sample_ticket \<and> seat sample_ticket < seats_in_row sample_airplane) \<and>
   is_error (fst (Ticket_save sample_db sample_ticket)) \<and>
   snd (Ticket_save sample_db sample_ticket) = sample_db \<and>
   TicketSerializer_validate (19, 5, sample_flight\<lparr>flight_pk := Some 1\<rparr>) =
     Inr (19, 5, sample_flight\<lparr>flight_pk := Some 1\<rparr>)"
proof -
  let ?f = "sample_flight\<lparr>flight_pk := Some 1\<rparr>"
  have g: "get_flight sample_db (flight_id sample_ticket) = Some ?f"
    by (simp add: get_flight_def sample_db_def sample_ticket_def)
  have a: "airplane ?f = sample_airplane" by (simp add: sample_flight_def)
  have nb: "\<not> (0 < row sample_ticket \<and> row sample_ticket < rows (airplane ?f) \<and>
      0 < seat sample_ticket \<and> seat sample_ticket < seats_in_row (airplane ?f))"
    by (simp add: sample_ticket_def sample_flight_def sample_airplane_def)
  note t = validate_ticket_exclusive_bounds [of 19 5 sample_airplane RestValidationError
      sample_db sample_ticket ?f]
  note u = validate_ticket_exclusive_bounds [of 20 5 sample_airplane RestValidationError
      sample_db sample_ticket ?f]
  note t6 = mp [OF t [THEN conjunct2, THEN conjunct2, THEN conjunct2, THEN conjunct2,
      THEN conjunct2, THEN conjunct1] g]
  note sv = mp [OF t6 [THEN conjunct2] nb]
  from t6 [THEN conjunct1] nb have cl: "Ticket_clean sample_db sample_ticket \<noteq> Inr ()" by simp
  have r: "rows sample_airplane = 20" "seats_in_row sample_airplane = 6"
    by (simp_all add: sample_airplane_def)
  from t [THEN conjunct1] have 1: "validate_ticket 19 5 sample_airplane RestValidationError = Inr ()"
    by (simp add: r)
  from u [THEN conjunct2, THEN conjunct2, THEN conjunct1]
  have 2: "validate_ticket 20 5 sample_airplane RestValidationError \<noteq> Inr ()"
    by (simp add: r)
  from t [THEN conjunct2, THEN conjunct2, THEN conjunct2, THEN conjunct2, THEN conjunct1]
  have 3: "validate_ticket 19 6 sample_airplane RestValidationError \<noteq> Inr ()"
    by (simp add: r)
  from t [THEN conjunct2, THEN conjunct2, THEN conjunct2, THEN conjunct2, THEN conjunct2,
      THEN conjunct2, THEN conjunct1]
  have 4: "TicketSerializer_validate (19, 5, ?f) = Inr (19, 5, ?f)"
    by (simp add: sample_flight_def r)
  have nb': "\<not> (0 < row sample_ticket \<and> row sample_ticket < rows sample_airplane \<and>
      0 < seat sample_ticket \<and> seat sample_ticket < seats_in_row sample_airplane)"
    by (simp add: sample_ticket_def sample_airplane_def)
  from g 1 2 3 cl nb' sv 4 show ?thesis by simp
qed

text \<open>
  Claim C2. \<open>create_order\<close> is all or nothing: an empty ticket list is rejected with a
  validation error and the store is unchanged; whenever the call fails the store is
  unchanged, and it fails when one ticket of the list fails validation; a successful call
  appends the order and, in the order of the request, exactly the requested tickets, all
  of them referring to the new order. In every store reached through the requests of the
  interface each order has a ticket and each ticket has its order.
\<close>

theorem create_order_all_or_nothing:
  "create_order d now u [] = (Inl (RestValidationError [''tickets'']), d) \<and>
   (is_error (fst (create_order d now u ticket_specs)) \<longrightarrow>
      snd (create_order d now u ticket_specs) = d) \<and>
   ((\<exists>sp \<in> set ticket_specs. is_error (TicketSerializer_run_validation d sp)) \<longrightarrow>
      is_error (fst (create_order d now u ticket_specs))) \<and>
   (create_order d now u ticket_specs = (Inr ord, d') \<longrightarrow>
      ord = \<lparr>order_pk = Some (next_pk order_pk (orders d)), created_at = now, user = u\<rparr> \<and>
      d' = d\<lparr>orders := orders d @ [ord],
             tickets := tickets d @ drop (length (tickets d)) (tickets d')\<rparr> \<and>
      map seat_key (drop (length (tickets d)) (tickets d')) = ticket_specs \<and>
      ticket_specs \<noteq> [] \<and>
      (\<forall>t \<in> set (drop (length (tickets d)) (tickets d')). Some (order_id t) = order_pk ord)) \<and>
   orders_have_tickets (run requests) \<and> tickets_have_orders (run requests)"
proof -
  have ok: "ord = \<lparr>order_pk = Some (next_pk order_pk (orders d)), created_at = now, user = u\<rparr> \<and>
      d' = d\<lparr>orders := orders d @ [ord],
             tickets := tickets d @ drop (length (tickets d)) (tickets d')\<rparr> \<and>
      map seat_key (drop (length (tickets d)) (tickets d')) = ticket_specs \<and>
      ticket_specs \<noteq> [] \<and>
      (\<forall>t \<in> set (drop (length (tickets d)) (tickets d')). Some (order_id t) = order_pk ord)"
    if "create_order d now u ticket_specs = (Inr ord, d')"
  proof -
    from create_order_ok [OF that] obtain new where
      n: "ord = \<lparr>order_pk = Some (next_pk order_pk (orders d)), created_at = now, user = u\<rparr>"
      "d' = d\<lparr>orders := orders d @ [ord], tickets := tickets d @ new\<rparr>"
      "map seat_key new = ticket_specs" "ticket_specs \<noteq> []"
      "\<forall>t \<in> set new. Some (order_id t) = order_pk ord"
      by blast
    from n(2) have "drop (length (tickets d)) (tickets d') = new" by simp
    with n show ?thesis by simp
  qed
  have item: "is_error (fst (create_order d now u ticket_specs))"
    if "\<exists>sp \<in> set ticket_specs. is_error (TicketSerializer_run_validation d sp)"
  proof -
    from that obtain sp where "sp \<in> set ticket_specs"
      "is_error (TicketSerializer_run_validation d sp)" by blast
    then have "OrderSerializer_run_validation d ticket_specs = Inl (RestValidationError [''tickets''])"
      by (rule run_validation_item_error)
    then show ?thesis by (simp add: create_order_validation_error)
  qed
  show ?thesis
    using ok item create_order_error_unchanged [of d now u ticket_specs]
      run_orders_tickets [of requests]
    by (simp add: create_order_empty)
qed

theorem create_order_all_or_nothing_witness:
  "is_error (TicketSerializer_run_validation sample_db (5, 1, 1)) \<and>
   is_error (fst (create_order sample_db sample_now 9 [(8, 1, 1), (5, 1, 1)])) \<and>
   snd (create_order sample_db sample_now 9 [(8, 1, 1), (5, 1, 1)]) = sample_db \<and>
   create_order sample_db sample_now 9 [(9, 1, 1), (9, 2, 1)] =
     (Inr \<lparr>order_pk = Some 3, created_at = sample_now, user = 9\<rparr>,
      sample_db\<lparr>orders := orders sample_db @
                   [\<lparr>order_pk = Some 3, created_at = sample_now, user = 9\<rparr>],
                tickets := tickets sample_db @
                   [\<lparr>ticket_pk = Some 4, row = 9, seat = 1, flight_id = 1, order_id = 3\<rparr>,
                    \<lparr>ticket_pk = Some 5, row = 9, seat = 2, flight_id = 1, order_id = 3\<rparr>]\<rparr>) \<and>
   next_pk order_pk (orders sample_db) = 3 \<and>
   orders_have_tickets (run sample_requests) \<and> tickets_have_orders (run sample_requests)"
proof -
  let ?ord = "\<lparr>order_pk = Some 3, created_at = sample_now, user = 9\<rparr>"
  let ?d' = "sample_db\<lparr>orders := orders sample_db @ [?ord],
                tickets := tickets sample_db @
                   [\<lparr>ticket_pk = Some 4, row = 9, seat = 1, flight_id = 1, order_id = 3\<rparr>,
                    \<lparr>ticket_pk = Some 5, row = 9, seat = 2, flight_id = 1, order_id = 3\<rparr>]\<rparr>"
  have e: "is_error (TicketSerializer_run_validation sample_db (5, 1, 1))"
    by code_simp
  have c: "create_order sample_db sample_now 9 [(9, 1, 1), (9, 2, 1)] = (Inr ?ord, ?d')"
    by code_simp
  note a = create_order_all_or_nothing [of sample_db sample_now 9 "[(8, 1, 1), (5, 1, 1)]"
      ?ord ?d' sample_requests]
  note b = create_order_all_or_nothing [of sample_db sample_now 9 "[(9, 1, 1), (9, 2, 1)]"
      ?ord ?d' sample_requests]
  from e have e': "\<exists>sp \<in> set [(8, 1, 1), (5, 1, 1)].
      is_error (TicketSerializer_run_validation sample_db sp)" by simp
  have 1: "is_error (fst (create_order sample_db sample_now 9 [(8, 1, 1), (5, 1, 1)]))"
    by (rule mp [OF a [THEN conjunct2, THEN conjunct2, THEN conjunct1] e'])
  have 2: "snd (create_order sample_db sample_now 9 [(8, 1, 1), (5, 1, 1)]) = sample_db"
    by (rule mp [OF a [THEN conjunct2, THEN conjunct1] 1])
  note b4 = mp [OF b [THEN conjunct2, THEN conjunct2, THEN conjunct2, THEN conjunct1] c]
  from b4 have 4: "next_pk order_pk (orders sample_db) = 3" by simp
  note a5 = a [THEN conjunct2, THEN conjunct2, THEN conjunct2, THEN conjunct2]
  have 5: "orders_have_tickets (run sample_requests)" "tickets_have_orders (run sample_requests)"
    using a5 by (rule conjunct1, rule conjunct2)
  from e 1 2 c 4 5 show ?thesis by simp
qed

text \<open>
  Claim C3. In every store reached through the requests of the interface no two tickets
  have the same (row, seat, flight). A request whose ticket list holds the same
  (row, seat, flight) twice fails and leaves the store unchanged, and so does a request
  for a seat that a stored ticket already has.
\<close>

theorem seats_unique_in_reachable_stores:
  "seats_unique (run requests) \<and>
   (\<not> distinct ticket_specs \<longrightarrow>
      is_error (fst (create_order d now u ticket_specs)) \<and>
      snd (create_order d now u ticket_specs) = d) \<and>
   (set ticket_specs \<inter> set (map seat_key (tickets d)) \<noteq> {} \<longrightarrow>
      is_error (fst (create_order d now u ticket_specs)) \<and>
      snd (create_order d now u ticket_specs) = d)"
  using run_seats_unique [of requests] create_order_fails_if [of ticket_specs d now u]
  by blast

theorem seats_unique_in_reachable_stores_witness:
  "\<not> distinct [(9, 2, 1), (9 :: int, 2 :: int, 1 :: nat)] \<and>
   is_error (fst (create_order sample_db sample_now 7 [(9, 2, 1), (9, 2, 1)])) \<and>
   snd (create_order sample_db sample_now 7 [(9, 2, 1), (9, 2, 1)]) = sample_db \<and>
   set [(5, 2, 1)] \<inter> set (map seat_key (tickets sample_db)) \<noteq> {} \<and>
   is_error (fst (create_order sample_db sample_now 7 [(5, 2, 1)])) \<and>
   snd (create_order sample_db sample_now 7 [(5, 2, 1)]) = sample_db \<and>
   seats_unique (run sample_requests)"
proof -
  have h1: "\<not> distinct [(9, 2, 1), (9 :: int, 2 :: int, 1 :: nat)]" by simp
  have h2: "set [(5, 2, 1)] \<inter> set (map seat_key (tickets sample_db)) \<noteq> {}"
    by (simp add: sample_db_def seat_key_def)
  note a = seats_unique_in_reachable_stores
      [of sample_requests "[(9, 2, 1), (9, 2, 1)]" sample_db sample_now 7]
  note b = seats_unique_in_reachable_stores
      [of sample_requests "[(5, 2, 1)]" sample_db sample_now 7]
  note 1 = mp [OF a [THEN conjunct2, THEN conjunct1] h1]
  note 2 = mp [OF b [THEN conjunct2, THEN conjunct2] h2]
  note 3 = a [THEN conjunct1]
  from h1 1 h2 2 3 show ?thesis by simp
qed

text \<open>
  Claim C4, as stated (a flight create or update fails if and only if
  \<open>departure_time \<ge> arrival_time\<close>), fails in the direction "only if": the serializer
  also validates the other fields, and a create request with ordered times and an empty
  crew list is rejected with a validation error.
\<close>

theorem create_flight_fails_with_ordered_times:
  "fp_departure_time crewless_flight_payload = Some ((2024, 8, 25), 50400000000) \<and>
   fp_arrival_time crewless_flight_payload = Some ((2024, 8, 25), 57600000000) \<and>
   \<not> ((2024 :: int, 8 :: int, 25 :: int), 50400000000 :: int) \<ge> ((2024, 8, 25), 57600000000) \<and>
   create_flight sample_db crewless_flight_payload =
     (Inl (RestValidationError [''crew'']), sample_db)"
  by (simp add: crewless_flight_payload_def sample_flight_payload_def create_flight_def
      FlightSerializer_run_validation_def FlightSerializer_to_internal_value_def
      sample_db_def sample_route_def sample_airplane_def field_errors_def)

text \<open>
  Claim C4, amended. Every \<open>Flight.save\<close> (create and update alike) and every create
  request with \<open>departure_time \<ge> arrival_time\<close> fails and leaves the store unchanged: the
  check runs before every persistence, so an update that breaks the order of the times of
  a valid stored flight is rejected. When the other fields are valid (for \<open>save\<close>: route
  and airplane are saved and exist; for a create request: every field of the payload
  passes its own validation), the operation fails if and only if
  \<open>departure_time \<ge> arrival_time\<close>. A failed operation never changes the store, and
  every stored flight of a reachable store has \<open>departure_time < arrival_time\<close>.
\<close>

theorem flight_save_rejects_unordered_times:
  "(departure_time f \<ge> arrival_time f \<longrightarrow>
      is_error (fst (Flight_save d f)) \<and> snd (Flight_save d f) = d) \<and>
   (route_pk (route f) = Some i \<and> list_ex (\<lambda>r. route_pk r = Some i) (routes d) \<and>
    airplane_pk (airplane f) = Some j \<and> list_ex (\<lambda>a. airplane_pk a = Some j) (airplanes d) \<longrightarrow>
      (is_error (fst (Flight_save d f)) \<longleftrightarrow> departure_time f \<ge> arrival_time f)) \<and>
   (fp_departure_time p = Some dep \<and> fp_arrival_time p = Some arr \<and> dep \<ge> arr \<longrightarrow>
      is_error (fst (create_flight d p)) \<and> snd (create_flight d p) = d) \<and>
   (FlightSerializer_to_internal_value d p = Inr attrs \<longrightarrow>
      fp_departure_time p = Some (departure_time attrs) \<and>
      fp_arrival_time p = Some (arrival_time attrs) \<and>
      (is_error (fst (create_flight d p)) \<longleftrightarrow> departure_time attrs \<ge> arrival_time attrs)) \<and>
   (g \<in> set (flights d) \<and> departure_time g < arrival_time g \<and> new_dep \<ge> new_arr \<longrightarrow>
      is_error (fst (Flight_save d (g\<lparr>departure_time := new_dep, arrival_time := new_arr\<rparr>))) \<and>
      snd (Flight_save d (g\<lparr>departure_time := new_dep, arrival_time := new_arr\<rparr>)) = d) \<and>
   (is_error (fst (Flight_save d f)) \<longrightarrow> snd (Flight_save d f) = d) \<and>
   (is_error (fst (create_flight d p)) \<longrightarrow> snd (create_flight d p) = d) \<and>
   (flights_well_timed d \<longrightarrow> flights_well_timed (snd (Flight_save d f))) \<and>
   flights_well_timed (run requests)"
proof -
  have 1: "is_error (fst (Flight_save d x)) \<and> snd (Flight_save d x) = d"
    if "departure_time x \<ge> arrival_time x" for x
  proof -
    from that have "is_error (fst (Flight_save d x))" by (simp add: Flight_save_error_iff)
    then show ?thesis by (simp add: Flight_save_error_unchanged)
  qed
  have 2: "is_error (fst (Flight_save d f)) \<longleftrightarrow> departure_time f \<ge> arrival_time f"
    if "route_pk (route f) = Some i \<and> list_ex (\<lambda>r. route_pk r = Some i) (routes d) \<and>
        airplane_pk (airplane f) = Some j \<and> list_ex (\<lambda>a. airplane_pk a = Some j) (airplanes d)"
  proof -
    from that have "Flight_clean_fields d f = []"
      unfolding Flight_clean_fields_empty_iff by blast
    then show ?thesis by (simp add: Flight_save_error_iff)
  qed
  have 3: "is_error (fst (create_flight d p)) \<and> snd (create_flight d p) = d"
    if "fp_departure_time p = Some dep \<and> fp_arrival_time p = Some arr \<and> dep \<ge> arr"
  proof -
    from that have "is_error (fst (create_flight d p))"
      using create_flight_late [of p dep arr d] by blast
    then show ?thesis by (simp add: create_flight_error_unchanged)
  qed
  have 4: "fp_departure_time p = Some (departure_time attrs) \<and>
      fp_arrival_time p = Some (arrival_time attrs) \<and>
      (is_error (fst (create_flight d p)) \<longleftrightarrow> departure_time attrs \<ge> arrival_time attrs)"
    if "FlightSerializer_to_internal_value d p = Inr attrs"
    using FlightSerializer_to_internal_value_ok(2,3) [OF that] create_flight_valid_fields [OF that]
    by simp
  have 5: "is_error (fst (Flight_save d (g\<lparr>departure_time := new_dep, arrival_time := new_arr\<rparr>))) \<and>
      snd (Flight_save d (g\<lparr>departure_time := new_dep, arrival_time := new_arr\<rparr>)) = d"
    if "new_dep \<ge> new_arr"
    using that by (intro 1) simp
  show ?thesis
    using 1 [of f] 2 3 4 5 Flight_save_error_unchanged [of d f]
      create_flight_error_unchanged [of d p] Flight_save_well_timed [of d f]
      run_flights_well_timed [of requests]
    by blast
qed

theorem flight_save_rejects_unordered_times_witness:
  "departure_time late_flight \<ge> arrival_time late_flight \<and>
   is_error (fst (Flight_save sample_db late_flight)) \<and>
   snd (Flight_save sample_db late_flight) = sample_db \<and>
   \<not> is_error (fst (Flight_save sample_db (sample_flight\<lparr>flight_pk := Some 1\<rparr>))) \<and>
   is_error (fst (create_flight sample_db late_flight_payload)) \<and>
   snd (create_flight sample_db late_flight_payload) = sample_db \<and>
   FlightSerializer_to_internal_value sample_db sample_flight_payload = Inr sample_flight \<and>
   \<not> is_error (fst (create_flight sample_db sample_flight_payload)) \<and>
   sample_flight\<lparr>flight_pk := Some 1\<rparr> \<in> set (flights sample_db) \<and>
   is_error (fst (Flight_save sample_db
     (sample_flight\<lparr>flight_pk := Some 1, departure_time := ((2024, 8, 26), 0),
                   arrival_time := ((2024, 8, 25), 57600000000)\<rparr>))) \<and>
   snd (Flight_save sample_db
     (sample_flight\<lparr>flight_pk := Some 1, departure_time := ((2024, 8, 26), 0),
                   arrival_time := ((2024, 8, 25), 57600000000)\<rparr>)) = sample_db \<and>
   flights_well_timed sample_db \<and>
   flights_well_timed (snd (Flight_save sample_db (sample_flight\<lparr>flight_pk := Some 1\<rparr>))) \<and>
   flights_well_timed (run sample_requests)"
proof -
  let ?g = "sample_flight\<lparr>flight_pk := Some 1\<rparr>"
  let ?late = "((2024 :: int, 8 :: int, 25 :: int), 57600000000 :: int)"
  have h: "departure_time late_flight \<ge> arrival_time late_flight"
    by (simp add: late_flight_def sample_flight_def)
  have v: "route_pk (route ?g) = Some 1 \<and> list_ex (\<lambda>r. route_pk r = Some 1) (routes sample_db) \<and>
      airplane_pk (airplane ?g) = Some 1 \<and>
      list_ex (\<lambda>a. airplane_pk a = Some 1) (airplanes sample_db)"
    by (simp add: sample_flight_def sample_db_def sample_route_def sample_airplane_def)
  have lp: "fp_departure_time late_flight_payload = Some ?late \<and>
      fp_arrival_time late_flight_payload = Some ?late \<and> ?late \<ge> ?late"
    by (simp add: late_flight_payload_def sample_flight_payload_def)
  have iv: "FlightSerializer_to_internal_value sample_db sample_flight_payload = Inr sample_flight"
    by (simp add: FlightSerializer_to_internal_value_def sample_flight_payload_def sample_db_def
        sample_flight_def sample_route_def sample_airplane_def)
  have m: "?g \<in> set (flights sample_db) \<and> departure_time ?g < arrival_time ?g \<and>
      ((2024, 8, 26), 0) \<ge> ?late"
    by (simp add: sample_db_def sample_flight_def)
  have w: "flights_well_timed sample_db"
    by (simp add: flights_well_timed_def sample_db_def sample_flight_def)
  have lt: "\<not> departure_time ?g \<ge> arrival_time ?g" "\<not> departure_time sample_flight \<ge> arrival_time sample_flight"
    by (simp_all add: sample_flight_def)
  note a = flight_save_rejects_unordered_times [where d = sample_db and f = late_flight
      and i = 1 and j = 1 and p = late_flight_payload and dep = ?late and arr = ?late
      and attrs = sample_flight and g = ?g and new_dep = "((2024, 8, 26), 0)"
      and new_arr = ?late and requests = sample_requests]
  note b = flight_save_rejects_unordered_times [where d = sample_db and f = ?g
      and i = 1 and j = 1 and p = sample_flight_payload and dep = ?late and arr = ?late
      and attrs = sample_flight and g = ?g and new_dep = "((2024, 8, 26), 0)"
      and new_arr = ?late and requests = sample_requests]
  note a1 = mp [OF a [THEN conjunct1] h]
  note b2 = mp [OF b [THEN conjunct2, THEN conjunct1] v]
  note a3 = mp [OF a [THEN conjunct2, THEN conjunct2, THEN conjunct1] lp]
  note b4 = mp [OF b [THEN conjunct2, THEN conjunct2, THEN conjunct2, THEN conjunct1] iv]
  note a5 = mp [OF a [THEN conjunct2, THEN conjunct2, THEN conjunct2, THEN conjunct2,
      THEN conjunct1] m]
  note b8 = mp [OF b [THEN conjunct2, THEN conjunct2, THEN conjunct2, THEN conjunct2,
      THEN conjunct2, THEN conjunct2, THEN conjunct2, THEN conjunct1] w]
  note a9 = a [THEN conjunct2, THEN conjunct2, THEN conjunct2, THEN conjunct2,
      THEN conjunct2, THEN conjunct2, THEN conjunct2, THEN conjunct2]
  from b2 lt have s2: "\<not> is_error (fst (Flight_save sample_db ?g))" by simp
  from b4 lt have s4: "\<not> is_error (fst (create_flight sample_db sample_flight_payload))" by simp
  from a5 have s5: "is_error (fst (Flight_save sample_db
     (sample_flight\<lparr>flight_pk := Some 1, departure_time := ((2024, 8, 26), 0),
                   arrival_time := ((2024, 8, 25), 57600000000)\<rparr>))) \<and>
   snd (Flight_save sample_db
     (sample_flight\<lparr>flight_pk := Some 1, departure_time := ((2024, 8, 26), 0),
                   arrival_time := ((2024, 8, 25), 57600000000)\<rparr>)) = sample_db" by simp
  from h a1 s2 a3 iv s4 m s5 w b8 a9 show ?thesis by simp
qed




text \<open>
  Claim C6. For every collection of flights and every crew parameter that converts to the
  ids \<open>crew_ids\<close>, the query with only this filter returns exactly the flights whose crew
  has a member among \<open>crew_ids\<close>. Whatever the filters, a result holds each flight at most
  once, is sorted ascending by \<open>departure_time\<close> and holds only flights of the collection;
  and with a crew filter every flight of the result has a crew member among the ids.
\<close>

theorem crew_filter_result:
  "(query_params ''crew'' = Some c \<and> c \<noteq> [] \<and> params_to_ints c = Inr crew_ids \<and>
    skipped (query_params ''source_airport'') \<and>
    skipped (query_params ''destination_airport'') \<and>
    skipped (query_params ''source_city'') \<and>
    skipped (query_params ''destination_city'') \<and>
    skipped (query_params ''airplane'') \<and>
    skipped (query_params ''date_departure'') \<and>
    skipped (query_params ''date_arrival'') \<longrightarrow>
      get_queryset query_params qs =
        Inr (sort_key departure_time (remdups (filter_crew_id_in crew_ids qs))) \<and>
      set (sort_key departure_time (remdups (filter_crew_id_in crew_ids qs))) =
        {f \<in> set qs. set (crew f) \<inter> set crew_ids \<noteq> {}}) \<and>
   (get_queryset query_params qs = Inr result \<longrightarrow>
      distinct result \<and> sorted (map departure_time result) \<and> set result \<subseteq> set qs) \<and>
   (get_queryset query_params qs = Inr result \<and>
    query_params ''crew'' = Some c \<and> c \<noteq> [] \<and> params_to_ints c = Inr crew_ids \<longrightarrow>
      (\<forall>f \<in> set result. set (crew f) \<inter> set crew_ids \<noteq> {}))"
  using get_queryset_crew_only [of query_params c crew_ids qs]
    get_queryset_result [of query_params qs result]
    get_queryset_crew_members [of query_params qs result c crew_ids]
  by (simp add: set_filter_crew_id_in)

theorem crew_filter_result_witness:
  "params_to_ints ''1, 2'' = Inr [1, 2] \<and>
   get_queryset [''crew'' \<mapsto> ''1, 2''] sample_flights =
     Inr [early_flight, sample_flight\<lparr>flight_pk := Some 1\<rparr>] \<and>
   filter_crew_id_in [1, 2] sample_flights =
     [sample_flight\<lparr>flight_pk := Some 1\<rparr>, sample_flight\<lparr>flight_pk := Some 1\<rparr>, early_flight] \<and>
   distinct [early_flight, sample_flight\<lparr>flight_pk := Some 1\<rparr>] \<and>
   sorted (map departure_time [early_flight, sample_flight\<lparr>flight_pk := Some 1\<rparr>])"
proof -
  let ?qp = "[''crew'' \<mapsto> ''1, 2'']"
  let ?r = "[early_flight, sample_flight\<lparr>flight_pk := Some 1\<rparr>]"
  have p: "params_to_ints ''1, 2'' = Inr [1, 2]" by code_simp
  have j: "filter_crew_id_in [1, 2] sample_flights =
     [sample_flight\<lparr>flight_pk := Some 1\<rparr>, sample_flight\<lparr>flight_pk := Some 1\<rparr>, early_flight]"
    by code_simp
  have e: "sort_key departure_time (remdups (filter_crew_id_in [1, 2] sample_flights)) = ?r"
    by code_simp
  have h: "?qp ''crew'' = Some ''1, 2'' \<and> ''1, 2'' \<noteq> [] \<and> params_to_ints ''1, 2'' = Inr [1, 2] \<and>
    skipped (?qp ''source_airport'') \<and>
    skipped (?qp ''destination_airport'') \<and>
    skipped (?qp ''source_city'') \<and>
    skipped (?qp ''destination_city'') \<and>
    skipped (?qp ''airplane'') \<and>
    skipped (?qp ''date_departure'') \<and>
    skipped (?qp ''date_arrival'')"
    using p by (simp add: skipped_def)
  note t = crew_filter_result [where query_params = ?qp and c = "''1, 2''" and crew_ids = "[1, 2]"
      and qs = sample_flights and result = ?r]
  note 1 = mp [OF t [THEN conjunct1] h, THEN conjunct1]
  from 1 e have g: "get_queryset ?qp sample_flights = Inr ?r" by simp
  note 2 = mp [OF t [THEN conjunct2, THEN conjunct1] g]
  from p g j 2 show ?thesis by simp
qed

text \<open>
  Claim C7. For a stored flight, \<open>tickets_available\<close> is \<open>rows * seats_in_row\<close> of its
  airplane minus the number of tickets that refer to the flight. After a successful
  \<open>create_order\<close> it has decreased by the number of tickets of the request on that flight
  (by the length of the request when all its tickets are on that flight); after deleting
  an order it has increased by the number of tickets that the order had on that flight.
\<close>

theorem tickets_available_counts:
  "flight_pk f = Some i \<Longrightarrow>
   tickets_available d f =
     Inr (rows (airplane f) * seats_in_row (airplane f) -
          int (length (filter (\<lambda>t. flight_id t = i) (tickets d)))) \<and>
   (tickets_available d f = Inr n \<and> create_order d now u ticket_specs = (Inr ord, d') \<longrightarrow>
      tickets_available d' f =
        Inr (n - int (length (filter (\<lambda>sp. snd (snd sp) = i) ticket_specs))) \<and>
      ((\<forall>sp \<in> set ticket_specs. snd (snd sp) = i) \<longrightarrow>
         tickets_available d' f = Inr (n - int (length ticket_specs)))) \<and>
   (tickets_available d f = Inr n \<and> destroy_order d u' pk = (Inr (), d'') \<longrightarrow>
      tickets_available d'' f =
        Inr (n + int (length (filter (\<lambda>t. flight_id t = i \<and> order_id t = pk) (tickets d)))))"
proof -
  assume pk: "flight_pk f = Some i"
  have cr: "tickets_available d' f =
        Inr (n - int (length (filter (\<lambda>sp. snd (snd sp) = i) ticket_specs)))"
    if "tickets_available d f = Inr n" "create_order d now u ticket_specs = (Inr ord, d')"
    using that tickets_count_create_order [OF that(2), of i] pk
    by (auto simp: tickets_available_def)
  have al: "filter (\<lambda>sp. snd (snd sp) = i) ticket_specs = ticket_specs"
    if "\<forall>sp \<in> set ticket_specs. snd (snd sp) = i"
    using that by (simp add: filter_id_conv)
  have de: "tickets_available d'' f =
        Inr (n + int (length (filter (\<lambda>t. flight_id t = i \<and> order_id t = pk) (tickets d))))"
    if "tickets_available d f = Inr n" "destroy_order d u' pk = (Inr (), d'')"
    using that tickets_count_destroy_order [OF that(2), of i] pk
    by (auto simp: tickets_available_def)
  from cr al de show ?thesis
    by (auto simp: tickets_available_eq [OF pk])
qed

theorem tickets_available_counts_witness:
  "flight_pk (sample_flight\<lparr>flight_pk := Some 1\<rparr>) = Some 1 \<and>
   tickets_available sample_db (sample_flight\<lparr>flight_pk := Some 1\<rparr>) = Inr 117 \<and>
   create_order sample_db sample_now 9 [(9, 1, 1), (9, 2, 1)] =
     (Inr \<lparr>order_pk = Some 3, created_at = sample_now, user = 9\<rparr>,
      sample_db\<lparr>orders := orders sample_db @
                   [\<lparr>order_pk = Some 3, created_at = sample_now, user = 9\<rparr>],
                tickets := tickets sample_db @
                   [\<lparr>ticket_pk = Some 4, row = 9, seat = 1, flight_id = 1, order_id = 3\<rparr>,
                    \<lparr>ticket_pk = Some 5, row = 9, seat = 2, flight_id = 1, order_id = 3\<rparr>]\<rparr>) \<and>
   tickets_available
     (sample_db\<lparr>orders := orders sample_db @
                   [\<lparr>order_pk = Some 3, created_at = sample_now, user = 9\<rparr>],
                tickets := tickets sample_db @
                   [\<lparr>ticket_pk = Some 4, row = 9, seat = 1, flight_id = 1, order_id = 3\<rparr>,
                    \<lparr>ticket_pk = Some 5, row = 9, seat = 2, flight_id = 1, order_id = 3\<rparr>]\<rparr>)
     (sample_flight\<lparr>flight_pk := Some 1\<rparr>) = Inr 115 \<and>
   destroy_order sample_db 7 1 =
     (Inr (), sample_db\<lparr>orders := [\<lparr>order_pk = Some 2, created_at = sample_now, user = 8\<rparr>],
                tickets := [\<lparr>ticket_pk = Some 3, row = 7, seat = 3, flight_id = 1, order_id = 2\<rparr>]\<rparr>) \<and>
   tickets_available
     (sample_db\<lparr>orders := [\<lparr>order_pk = Some 2, created_at = sample_now, user = 8\<rparr>],
                tickets := [\<lparr>ticket_pk = Some 3, row = 7, seat = 3, flight_id = 1, order_id = 2\<rparr>]\<rparr>)
     (sample_flight\<lparr>flight_pk := Some 1\<rparr>) = Inr 119"
proof -
  let ?f = "sample_flight\<lparr>flight_pk := Some 1\<rparr>"
  let ?ord = "\<lparr>order_pk = Some 3, created_at = sample_now, user = 9\<rparr>"
  let ?d' = "sample_db\<lparr>orders := orders sample_db @ [?ord],
                tickets := tickets sample_db @
                   [\<lparr>ticket_pk = Some 4, row = 9, seat = 1, flight_id = 1, order_id = 3\<rparr>,
                    \<lparr>ticket_pk = Some 5, row = 9, seat = 2, flight_id = 1, order_id = 3\<rparr>]\<rparr>"
  let ?d'' = "sample_db\<lparr>orders := [\<lparr>order_pk = Some 2, created_at = sample_now, user = 8\<rparr>],
                tickets := [\<lparr>ticket_pk = Some 3, row = 7, seat = 3, flight_id = 1, order_id = 2\<rparr>]\<rparr>"
  have h: "flight_pk ?f = Some 1" by simp
  have c: "create_order sample_db sample_now 9 [(9, 1, 1), (9, 2, 1)] = (Inr ?ord, ?d')"
    by code_simp
  have e: "destroy_order sample_db 7 1 = (Inr (), ?d'')"
    by code_simp
  note t = tickets_available_counts [OF h, of sample_db 117 sample_now 9 "[(9, 1, 1), (9, 2, 1)]"
      ?ord ?d' 7 1 ?d'']
  from t [THEN conjunct1] have n: "tickets_available sample_db ?f = Inr 117"
    by (simp add: sample_db_def sample_flight_def sample_airplane_def)
  from n c have "tickets_available sample_db ?f = Inr 117 \<and>
      create_order sample_db sample_now 9 [(9, 1, 1), (9, 2, 1)] = (Inr ?ord, ?d')" by simp
  note 1 = mp [OF t [THEN conjunct2, THEN conjunct1] this, THEN conjunct1]
  from n e have "tickets_available sample_db ?f = Inr 117 \<and>
      destroy_order sample_db 7 1 = (Inr (), ?d'')" by simp
  note 2 = mp [OF t [THEN conjunct2, THEN conjunct2] this]
  from 1 have p1: "tickets_available ?d' ?f = Inr 115" by simp
  from 2 have p2: "tickets_available ?d'' ?f = Inr 119" by (simp add: sample_db_def)
  from h n c p1 e p2 show ?thesis by simp
qed

text \<open>
  Claim C8, as stated (every persisted airplane has positive \<open>rows\<close> and \<open>seats_in_row\<close>,
  the create operation rejects \<open>rows \<le> 0\<close> or \<open>seats_in_row \<le> 0\<close>), fails: no validator
  of the model or of \<open>AirplaneSerializer\<close> looks at the sign, and a payload with 0 rows and
  -3 seats in a row is created and stored.
\<close>

theorem create_airplane_accepts_nonpositive_rows:
  "airplanes (run [CreateAirplaneType, CreateAirplane flat_airplane_payload]) = [flat_airplane] \<and>
   create_airplane (run [CreateAirplaneType]) flat_airplane_payload =
     (Inr flat_airplane, run [CreateAirplaneType, CreateAirplane flat_airplane_payload]) \<and>
   ap_rows flat_airplane_payload = Some 0 \<and> ap_seats_in_row flat_airplane_payload = Some (- 3) \<and>
   rows flat_airplane = 0 \<and> seats_in_row flat_airplane = - 3"
  by (simp add: run_def empty_db_def insert_airplane_type_def fresh_pk_def create_airplane_def
      AirplaneSerializer_run_validation_def flat_airplane_payload_def flat_airplane_def
      CharField_def strip_def is_space_def IntegerField_def integer_min_def integer_max_def
      Airplane_objects_create_def Model_save_def Let_def)

text \<open>
  Claim C8, amended. The create operation does not look at the sign of \<open>rows\<close> and
  \<open>seats_in_row\<close>: a payload whose fields pass their validation (a name that is not blank
  and at most 255 characters long, integers within the integer range of the database,
  the key of an existing airplane type) is accepted, whether \<open>rows\<close> and \<open>seats_in_row\<close>
  are positive or not. Every airplane that the operation persists has the \<open>rows\<close> and
  \<open>seats_in_row\<close> of its payload, and a rejected payload leaves the store unchanged.
\<close>

theorem create_airplane_keeps_rows_of_any_sign:
  "(ap_name p = Some n \<and> CharField 255 n = Some n' \<and>
    ap_rows p = Some r \<and> integer_min \<le> r \<and> r \<le> integer_max \<and>
    ap_seats_in_row p = Some s \<and> integer_min \<le> s \<and> s \<le> integer_max \<and>
    ap_airplane_type p = Some t \<and> t \<in> set (airplane_types d) \<longrightarrow>
      create_airplane d p =
        (Inr \<lparr>airplane_pk = Some (next_pk airplane_pk (airplanes d)), airplane_name = n',
              rows = r, seats_in_row = s, airplane_type = t\<rparr>,
         d\<lparr>airplanes := airplanes d @
              [\<lparr>airplane_pk = Some (next_pk airplane_pk (airplanes d)), airplane_name = n',
                rows = r, seats_in_row = s, airplane_type = t\<rparr>]\<rparr>)) \<and>
   (create_airplane d p = (Inr a, d') \<longrightarrow>
      ap_rows p = Some (rows a) \<and> ap_seats_in_row p = Some (seats_in_row a) \<and>
      d' = d\<lparr>airplanes := airplanes d @ [a]\<rparr>) \<and>
   (is_error (fst (create_airplane d p)) \<longrightarrow> snd (create_airplane d p) = d)"
proof -
  have 1: "create_airplane d p =
        (Inr \<lparr>airplane_pk = Some (next_pk airplane_pk (airplanes d)), airplane_name = n',
              rows = r, seats_in_row = s, airplane_type = t\<rparr>,
         d\<lparr>airplanes := airplanes d @
              [\<lparr>airplane_pk = Some (next_pk airplane_pk (airplanes d)), airplane_name = n',
                rows = r, seats_in_row = s, airplane_type = t\<rparr>]\<rparr>)"
    if "ap_name p = Some n \<and> CharField 255 n = Some n' \<and>
    ap_rows p = Some r \<and> integer_min \<le> r \<and> r \<le> integer_max \<and>
    ap_seats_in_row p = Some s \<and> integer_min \<le> s \<and> s \<le> integer_max \<and>
    ap_airplane_type p = Some t \<and> t \<in> set (airplane_types d)"
    using that
    by (simp add: create_airplane_def AirplaneSerializer_run_validation_def IntegerField_def
        Airplane_objects_create_def Model_save_def next_pk_def Let_def)
  have 2: "ap_rows p = Some (rows a) \<and> ap_seats_in_row p = Some (seats_in_row a) \<and>
      d' = d\<lparr>airplanes := airplanes d @ [a]\<rparr>"
    if "create_airplane d p = (Inr a, d')"
    using that
    by (auto simp: create_airplane_def AirplaneSerializer_run_validation_def IntegerField_def
        Airplane_objects_create_def Model_save_def Let_def bind_eq_Some_conv
        split: sum.splits option.splits prod.splits if_splits)
  have 3: "snd (create_airplane d p) = d" if "is_error (fst (create_airplane d p))"
    using that
    by (cases "AirplaneSerializer_run_validation d p")
       (simp_all add: create_airplane_def split: prod.splits)
  from 1 2 3 show ?thesis by blast
qed

theorem create_airplane_keeps_rows_of_any_sign_witness:
  "ap_name flat_airplane_payload = Some ''Airplane'' \<and>
   CharField 255 ''Airplane'' = Some ''Airplane'' \<and>
   ap_rows flat_airplane_payload = Some 0 \<and> integer_min \<le> 0 \<and> 0 \<le> integer_max \<and>
   ap_seats_in_row flat_airplane_payload = Some (- 3) \<and>
   integer_min \<le> - 3 \<and> - 3 \<le> integer_max \<and>
   ap_airplane_type flat_airplane_payload = Some 1 \<and>
   1 \<in> set (airplane_types (run [CreateAirplaneType])) \<and>
   next_pk airplane_pk (airplanes (run [CreateAirplaneType])) = 1 \<and>
   fst (create_airplane (run [CreateAirplaneType]) flat_airplane_payload) = Inr flat_airplane"
proof -
  let ?d = "run [CreateAirplaneType]"
  have h: "ap_name flat_airplane_payload = Some ''Airplane'' \<and>
      CharField 255 ''Airplane'' = Some ''Airplane'' \<and>
      ap_rows flat_airplane_payload = Some 0 \<and> integer_min \<le> 0 \<and> 0 \<le> integer_max \<and>
      ap_seats_in_row flat_airplane_payload = Some (- 3) \<and>
      integer_min \<le> - 3 \<and> - 3 \<le> integer_max \<and>
      ap_airplane_type flat_airplane_payload = Some 1 \<and>
      1 \<in> set (airplane_types ?d)"
    by (simp add: flat_airplane_payload_def CharField_def strip_def is_space_def Let_def
        integer_min_def integer_max_def run_def empty_db_def insert_airplane_type_def
        fresh_pk_def)
  have k: "next_pk airplane_pk (airplanes ?d) = 1"
    by (simp add: run_def empty_db_def insert_airplane_type_def next_pk_def fresh_pk_def
        List.map_filter_simps)
  note t = create_airplane_keeps_rows_of_any_sign [where p = flat_airplane_payload
      and n = "''Airplane''" and n' = "''Airplane''" and r = 0 and s = "- 3" and t = 1
      and d = ?d and a = flat_airplane and d' = ?d]
  note 1 = mp [OF t [THEN conjunct1] h]
  from 1 k have "fst (create_airplane ?d flat_airplane_payload) = Inr flat_airplane"
    by (simp add: flat_airplane_def)
  with h k show ?thesis by simp
qed

text \<open>
  Claim C9. For a user \<open>u\<close>, listing returns exactly the orders of \<open>u\<close>; retrieve and
  delete find an order only among the orders of \<open>u\<close>: what they return or delete is owned
  by \<open>u\<close>, and for a key that no order of \<open>u\<close> has they answer not found and the store is
  unchanged. In a store reached through the requests of the interface keys are unique,
  so an order owned by another user is never retrieved or deleted. (Pagination of the
  list is not modelled.)
\<close>

theorem orders_scoped_to_user:
  "list_orders d u = filter (\<lambda>x. user x = u) (orders d) \<and>
   set (list_orders d u) = {x \<in> set (orders d). user x = u} \<and>
   (retrieve_order d u pk = Inr x \<longrightarrow>
      x \<in> set (orders d) \<and> user x = u \<and> order_pk x = Some pk) \<and>
   (destroy_order d u pk = (Inr (), d') \<longrightarrow>
      (\<exists>x \<in> set (orders d). user x = u \<and> order_pk x = Some pk \<and> d' = Order_delete d x)) \<and>
   ((\<forall>y \<in> set (orders d). order_pk y = Some pk \<longrightarrow> user y \<noteq> u) \<longrightarrow>
      retrieve_order d u pk = Inl Http404 \<and> destroy_order d u pk = (Inl Http404, d)) \<and>
   (y \<in> set (orders (run requests)) \<and> order_pk y = Some pk \<and> user y \<noteq> u \<longrightarrow>
      retrieve_order (run requests) u pk = Inl Http404 \<and>
      destroy_order (run requests) u pk = (Inl Http404, run requests))"
proof -
  have r: "x \<in> set (orders d) \<and> user x = u \<and> order_pk x = Some pk"
    if "retrieve_order d u pk = Inr x"
    using that by (cases rule: retrieve_order_cases [of d u pk]) simp_all
  have de: "\<exists>x \<in> set (orders d). user x = u \<and> order_pk x = Some pk \<and> d' = Order_delete d x"
    if "destroy_order d u pk = (Inr (), d')"
    using that by (cases rule: destroy_order_cases [of d u pk]) auto
  have re: "retrieve_order (run requests) u pk = Inl Http404 \<and>
      destroy_order (run requests) u pk = (Inl Http404, run requests)"
    if "y \<in> set (orders (run requests))" "order_pk y = Some pk" "user y \<noteq> u"
    using foreign_order_not_found [OF unique_pk_owner [OF run_order_pks_unique that]]
    by simp
  show ?thesis
    using r de re foreign_order_not_found [of d pk u]
    by (auto simp: list_orders_def OrderViewSet_get_queryset_def)
qed

theorem orders_scoped_to_user_witness:
  "retrieve_order sample_db 7 1 = Inr \<lparr>order_pk = Some 1, created_at = sample_now, user = 7\<rparr> \<and>
   \<lparr>order_pk = Some 1, created_at = sample_now, user = 7\<rparr> \<in> set (orders sample_db) \<and>
   retrieve_order sample_db 7 2 = Inl Http404 \<and>
   destroy_order sample_db 7 2 = (Inl Http404, sample_db) \<and>
   \<lparr>order_pk = Some 2, created_at = sample_now, user = 8\<rparr> \<in> set (orders (run sample_requests)) \<and>
   retrieve_order (run sample_requests) 7 2 = Inl Http404 \<and>
   destroy_order (run sample_requests) 7 2 = (Inl Http404, run sample_requests)"
proof -
  let ?o1 = "\<lparr>order_pk = Some 1, created_at = sample_now, user = 7\<rparr>"
  let ?o2 = "\<lparr>order_pk = Some 2, created_at = sample_now, user = 8\<rparr>"
  have r: "retrieve_order sample_db 7 1 = Inr ?o1" by code_simp
  have h: "\<forall>y \<in> set (orders sample_db). order_pk y = Some 2 \<longrightarrow> user y \<noteq> 7"
    by (simp add: sample_db_def)
  have run: "run sample_requests = sample_db" by code_simp
  have m: "?o2 \<in> set (orders (run sample_requests)) \<and> order_pk ?o2 = Some 2 \<and> user ?o2 \<noteq> 7"
    unfolding run by (simp add: sample_db_def)
  note a = orders_scoped_to_user [of sample_db 7 1 ?o1 sample_db ?o2 sample_requests]
  note b = orders_scoped_to_user [of sample_db 7 2 ?o1 sample_db ?o2 sample_requests]
  note 1 = mp [OF a [THEN conjunct2, THEN conjunct2, THEN conjunct1] r, THEN conjunct1]
  note 2 = mp [OF b [THEN conjunct2, THEN conjunct2, THEN conjunct2, THEN conjunct2,
      THEN conjunct1] h]
  note 3 = mp [OF b [THEN conjunct2, THEN conjunct2, THEN conjunct2, THEN conjunct2,
      THEN conjunct2] m]
  from r 1 2 m 3 show ?thesis by simp
qed

text \<open>
  Claim C10. For an airplane with \<open>rows \<le> 1\<close> or \<open>seats_in_row \<le> 1\<close>, \<open>validate_ticket\<close>
  fails for every row and seat; saving a ticket on a flight of such an airplane fails, and
  every order that contains a ticket on such a flight is rejected, the store unchanged.
\<close>

theorem no_ticket_on_degenerate_airplane:
  "rows a \<le> 1 \<or> seats_in_row a \<le> 1 \<Longrightarrow>
   validate_ticket r s a error_to_raise \<noteq> Inr () \<and>
   (get_flight d (flight_id t) = Some f \<and> airplane f = a \<longrightarrow>
      is_error (fst (Ticket_save d t)) \<and> snd (Ticket_save d t) = d) \<and>
   (get_flight d fid = Some f \<and> airplane f = a \<and> (r, s, fid) \<in> set ticket_specs \<longrightarrow>
      is_error (fst (create_order d now u ticket_specs)) \<and>
      snd (create_order d now u ticket_specs) = d)"
proof -
  assume deg: "rows a \<le> 1 \<or> seats_in_row a \<le> 1"
  then have nb: "\<not> (0 < x \<and> x < rows a \<and> 0 < y \<and> y < seats_in_row a)" for x y by auto
  have v: "validate_ticket r s a error_to_raise \<noteq> Inr ()"
    using nb by (simp add: validate_ticket_ok_iff)
  have sv: "is_error (fst (Ticket_save d t)) \<and> snd (Ticket_save d t) = d"
    if "get_flight d (flight_id t) = Some f" "airplane f = a"
  proof -
    from that nb have "Ticket_clean d t \<noteq> Inr ()" by (simp add: Ticket_clean_ok_iff)
    then show ?thesis by (intro Ticket_save_error Ticket_full_clean_error)
  qed
  have co: "is_error (fst (create_order d now u ticket_specs)) \<and>
      snd (create_order d now u ticket_specs) = d"
    if f: "get_flight d fid = Some f" "airplane f = a" and m: "(r, s, fid) \<in> set ticket_specs"
  proof -
    from f nb have "is_error (TicketSerializer_run_validation d (r, s, fid))"
      by (intro TicketSerializer_run_validation_out_of_range) auto
    with m have "OrderSerializer_run_validation d ticket_specs = Inl (RestValidationError [''tickets''])"
      by (rule run_validation_item_error)
    then show ?thesis by (simp add: create_order_validation_error)
  qed
  from v sv co show ?thesis by blast
qed

theorem no_ticket_on_degenerate_airplane_witness:
  "(rows single_row_airplane \<le> 1 \<or> seats_in_row single_row_airplane \<le> 1) \<and>
   validate_ticket 1 1 single_row_airplane RestValidationError \<noteq> Inr () \<and>
   get_flight single_row_db 1 =
     Some (sample_flight\<lparr>flight_pk := Some 1, airplane := single_row_airplane\<rparr>) \<and>
   (1, 1, 1) \<in> set [(1, 1, 1 :: nat)] \<and>
   is_error (fst (create_order single_row_db sample_now 7 [(1, 1, 1)])) \<and>
   snd (create_order single_row_db sample_now 7 [(1, 1, 1)]) = single_row_db"
proof -
  let ?f = "sample_flight\<lparr>flight_pk := Some 1, airplane := single_row_airplane\<rparr>"
  have h: "rows single_row_airplane \<le> 1 \<or> seats_in_row single_row_airplane \<le> 1"
    by (simp add: single_row_airplane_def)
  have g: "get_flight single_row_db 1 = Some ?f"
    by (simp add: get_flight_def single_row_db_def)
  have a: "airplane ?f = single_row_airplane" by simp
  have m: "(1, 1, 1) \<in> set [(1 :: int, 1 :: int, 1 :: nat)]" by simp
  note t = no_ticket_on_degenerate_airplane [OF h, of 1 1 RestValidationError single_row_db
      "\<lparr>ticket_pk = None, row = 1, seat = 1, flight_id = 1, order_id = 1\<rparr>" ?f 1 "[(1, 1, 1)]"
      sample_now 7]
  note 1 = t [THEN conjunct1]
  from g a m have "get_flight single_row_db 1 = Some ?f \<and> airplane ?f = single_row_airplane \<and>
      (1, 1, 1) \<in> set [(1 :: int, 1 :: int, 1 :: nat)]" by simp
  note 2 = mp [OF t [THEN conjunct2, THEN conjunct2] this]
  from h 1 g m 2 show ?thesis by simp
qed

end
